theory Spec2Isabelle
  imports Complex_Main "HOL-Library.Log_Nat"
begin

section \<open>JavaScript values as the handlers see them\<close>

text \<open>
  Every handler of the order service works on what \<^verbatim>\<open>JSON.parse\<close> or the document
  store hands it: null, booleans, numbers, strings, arrays and objects. A property that
  is not there reads as \<^verbatim>\<open>undefined\<close>, which is \<open>None\<close> below.

  A number is an IEEE double, kept as the rational it stands for (the two zeros are one
  value); sums and products are rounded to the nearest double, as the language does. A
  JSON text holds no NaN; a literal beyond the range of the doubles, which is read as an
  infinity, is left out of the values. A string is a list of 8-bit characters. An object is the list of its own key/value pairs
  and a lookup finds the first pair of a key.
\<close>

datatype jsval =
    JNull
  | JBool bool
  | JNum rat
  | JStr string
  | JArr "jsval list"
  | JObj "(string \<times> jsval) list"

text \<open>The result of arithmetic: a number, an infinity or NaN.\<close>

datatype jsnum = NaN | NegInf | Fin rat | PosInf

subsection \<open>Rounding to a double\<close>

text \<open>
  The double nearest to a rational, a tie going to the even significand. \<open>ilog2 x\<close> is
  the binary exponent of a positive \<open>x\<close>; the doubles of that binade are the multiples of
  \<open>2\<close> to the power \<open>ilog2 x - 52\<close>, and below the smallest normal exponent \<open>-1022\<close> the
  spacing stays that of the subnormals. A result of magnitude \<open>2\<^sup>1\<^sup>0\<^sup>2\<^sup>4\<close> or more is an
  infinity.
\<close>

definition pow2 :: "int \<Rightarrow> rat" where
  "pow2 k = (if 0 \<le> k then 2 ^ nat k else 1 / 2 ^ nat (- k))"

definition ilog2 :: "rat \<Rightarrow> int" where
  "ilog2 x =
     (let (p, q) = quotient_of x; k = bitlen p - bitlen q
      in if pow2 k \<le> x then k else k - 1)"

definition round_even :: "rat \<Rightarrow> int" where
  "round_even x =
     (let f = \<lfloor>x\<rfloor>; d = x - of_int f
      in if d < 1 / 2 then f
         else if 1 / 2 < d then f + 1
         else if even f then f else f + 1)"

definition round_double :: "rat \<Rightarrow> jsnum" where
  "round_double x =
     (if x = 0 then Fin 0
      else
        (let e = max (ilog2 \<bar>x\<bar>) (- 1022);
             q = pow2 (e - 52);
             y = of_int (round_even (\<bar>x\<bar> / q)) * q
         in if pow2 1024 \<le> y then (if 0 < x then PosInf else NegInf)
            else Fin (sgn x * y)))"

subsection \<open>Values, errors and what the libraries decide\<close>

text \<open>
  A thrown error; the handlers look at nothing but \<^verbatim>\<open>error.code\<close>. A \<^verbatim>\<open>TypeError\<close> of the
  runtime has no code.
\<close>

datatype js_error = JsError "string option"

definition TypeError :: js_error where
  "TypeError = JsError None"

text \<open>
  What the handlers take from libraries that are not part of the source: the language's
  conversion of a string to a number (StringToNumber), and the error objects the
  document client throws when a write's condition fails and when a key does not fit the
  table's key schema (which of them carries an \<^verbatim>\<open>error.code\<close> is the client's business).
\<close>

record js_lib =
  string_to_number :: "string \<Rightarrow> jsnum"
  condition_failed :: js_error
  key_rejected :: js_error

text \<open>What \<^verbatim>\<open>JSON.parse\<close> made of a text: it threw, or it returned a value.\<close>

datatype parsed = SyntaxError | Json jsval

fun truthy :: "jsval option \<Rightarrow> bool" where
  "truthy None = False"
| "truthy (Some JNull) = False"
| "truthy (Some (JBool b)) = b"
| "truthy (Some (JNum r)) = (r \<noteq> 0)"
| "truthy (Some (JStr s)) = (s \<noteq> [])"
| "truthy (Some (JArr xs)) = True"
| "truthy (Some (JObj kvs)) = True"

fun typeof :: "jsval option \<Rightarrow> string" where
  "typeof None = ''undefined''"
| "typeof (Some JNull) = ''object''"
| "typeof (Some (JBool b)) = ''boolean''"
| "typeof (Some (JNum r)) = ''number''"
| "typeof (Some (JStr s)) = ''string''"
| "typeof (Some (JArr xs)) = ''object''"
| "typeof (Some (JObj kvs)) = ''object''"

text \<open>
  \<^verbatim>\<open>v.k\<close> for the property names the handlers read (none of them an array index). On
  \<^verbatim>\<open>null\<close> the read throws; every caller below tests for \<open>JNull\<close> before it reads.
\<close>

fun jget :: "jsval \<Rightarrow> string \<Rightarrow> jsval option" where
  "jget (JObj kvs) k = map_of kvs k"
| "jget (JArr xs) k = (if k = ''length'' then Some (JNum (of_nat (length xs))) else None)"
| "jget (JStr s) k = (if k = ''length'' then Some (JNum (of_nat (length s))) else None)"
| "jget v k = None"

text \<open>\<^verbatim>\<open>x || 0\<close>\<close>

fun or0 :: "jsval option \<Rightarrow> jsval" where
  "or0 None = JNum 0"
| "or0 (Some v) = (if truthy (Some v) then v else JNum 0)"

text \<open>
  Converting a value to a primitive throws a \<^verbatim>\<open>TypeError\<close> when no conversion method
  yields one: for an object, when it has an own property \<^verbatim>\<open>toString\<close> (a parsed value is
  never callable, and \<^verbatim>\<open>valueOf\<close> of an object returns the object); for an array, whose
  text is the join of its elements' texts, when that holds of an element.
\<close>

fun text_throws :: "jsval \<Rightarrow> bool" where
  "text_throws (JObj kvs) = (map_of kvs ''toString'' \<noteq> None)"
| "text_throws (JArr xs) = list_ex text_throws xs"
| "text_throws v = False"

text \<open>
  The number a value converts to when the conversion does not throw. A string converts
  by the library's StringToNumber. An array converts through its text: no element gives
  the empty text, one element gives that element's text, and the text of two or more
  holds a comma, which no number does. An object's text is never a number.
\<close>

fun numeric_value :: "js_lib \<Rightarrow> jsval \<Rightarrow> jsnum" where
  "numeric_value L JNull = Fin 0"
| "numeric_value L (JBool b) = Fin (if b then 1 else 0)"
| "numeric_value L (JNum r) = Fin r"
| "numeric_value L (JStr s) = string_to_number L s"
| "numeric_value L (JArr []) = string_to_number L []"
| "numeric_value L (JArr [JNull]) = string_to_number L []"
| "numeric_value L (JArr [JBool b]) = NaN"
| "numeric_value L (JArr [JObj kvs]) = NaN"
| "numeric_value L (JArr [x]) = numeric_value L x"
| "numeric_value L (JArr (x # y # zs)) = NaN"
| "numeric_value L (JObj kvs) = NaN"

text \<open>ToNumber.\<close>

definition to_number :: "js_lib \<Rightarrow> jsval \<Rightarrow> js_error + jsnum" where
  "to_number L v = (if text_throws v then Inl TypeError else Inr (numeric_value L v))"

fun js_neg :: "jsnum \<Rightarrow> jsnum" where
  "js_neg NaN = NaN"
| "js_neg NegInf = PosInf"
| "js_neg PosInf = NegInf"
| "js_neg (Fin r) = Fin (- r)"

fun js_times :: "jsnum \<Rightarrow> jsnum \<Rightarrow> jsnum" where
  "js_times NaN y = NaN"
| "js_times x NaN = NaN"
| "js_times (Fin a) (Fin b) = round_double (a * b)"
| "js_times (Fin a) y = (if a = 0 then NaN else if 0 < a then y else js_neg y)"
| "js_times x (Fin b) = (if b = 0 then NaN else if 0 < b then x else js_neg x)"
| "js_times PosInf y = y"
| "js_times NegInf y = js_neg y"

fun js_plus :: "jsnum \<Rightarrow> jsnum \<Rightarrow> jsnum" where
  "js_plus NaN y = NaN"
| "js_plus x NaN = NaN"
| "js_plus (Fin a) (Fin b) = round_double (a + b)"
| "js_plus (Fin a) y = y"
| "js_plus x (Fin b) = x"
| "js_plus PosInf PosInf = PosInf"
| "js_plus NegInf NegInf = NegInf"
| "js_plus PosInf NegInf = NaN"
| "js_plus NegInf PosInf = NaN"

text \<open>\<^verbatim>\<open>x > y\<close> on numbers: false as soon as one side is NaN.\<close>

fun js_gt :: "jsnum \<Rightarrow> jsnum \<Rightarrow> bool" where
  "js_gt NaN y = False"
| "js_gt x NaN = False"
| "js_gt (Fin a) (Fin b) = (b < a)"
| "js_gt PosInf y = (y \<noteq> PosInf)"
| "js_gt x NegInf = (x \<noteq> NegInf)"
| "js_gt x y = False"

text \<open>A number used as a condition: 0 and NaN are falsy.\<close>

fun num_truthy :: "jsnum \<Rightarrow> bool" where
  "num_truthy NaN = False"
| "num_truthy (Fin r) = (r \<noteq> 0)"
| "num_truthy x = True"

section \<open>The totals callback\<close>

text \<open>
  The three handlers that add up an order share one reducer:
  \<^verbatim>\<open>(total, item) => total + ((item.price || 0) * (item.qty || 0))\<close>,
  started at 0. Reading \<^verbatim>\<open>item.price\<close> of a \<^verbatim>\<open>null\<close> entry throws, and so does the product
  when a factor cannot be converted to a number.
\<close>

definition item_value :: "js_lib \<Rightarrow> jsval \<Rightarrow> js_error + jsnum" where
  "item_value L item =
     (case to_number L (or0 (jget item ''price'')) of
        Inl e \<Rightarrow> Inl e
      | Inr price \<Rightarrow>
          (case to_number L (or0 (jget item ''qty'')) of
             Inl e \<Rightarrow> Inl e
           | Inr qty \<Rightarrow> Inr (js_times price qty)))"

fun reduce_total :: "js_lib \<Rightarrow> jsnum \<Rightarrow> jsval list \<Rightarrow> js_error + jsnum" where
  "reduce_total L acc [] = Inr acc"
| "reduce_total L acc (JNull # rest) = Inl TypeError"
| "reduce_total L acc (item # rest) =
     (case item_value L item of
        Inl e \<Rightarrow> Inl e
      | Inr v \<Rightarrow> reduce_total L (js_plus acc v) rest)"

section \<open>Order processor: the business rule\<close>

text \<open>
  \<^verbatim>\<open>processOrderCreated(orderDetail)\<close>. The caller has checked that \<^verbatim>\<open>orderDetail\<close> is
  truthy. \<^verbatim>\<open>items?.reduce(...)\<close> is \<^verbatim>\<open>undefined\<close> for a missing or null \<^verbatim>\<open>items\<close>, runs the
  reducer on an array, and throws on anything else (no \<^verbatim>\<open>reduce\<close> to call).
\<close>

fun items_reduce :: "js_lib \<Rightarrow> jsval option \<Rightarrow> js_error + jsnum option" where
  "items_reduce L None = Inr None"
| "items_reduce L (Some JNull) = Inr None"
| "items_reduce L (Some (JArr xs)) =
     (case reduce_total L (Fin 0) xs of Inl e \<Rightarrow> Inl e | Inr t \<Rightarrow> Inr (Some t))"
| "items_reduce L (Some v) = Inl TypeError"

text \<open>\<^verbatim>\<open>r || 0\<close> for the reducer's result.\<close>

fun num_or0 :: "jsnum option \<Rightarrow> jsnum" where
  "num_or0 None = Fin 0"
| "num_or0 (Some t) = (if num_truthy t then t else Fin 0)"

text \<open>\<^verbatim>\<open>x > 10\<close> for a property that may be missing: \<^verbatim>\<open>undefined\<close> compares as NaN.\<close>

fun gt10 :: "js_lib \<Rightarrow> jsval option \<Rightarrow> js_error + bool" where
  "gt10 L None = Inr False"
| "gt10 L (Some v) =
     (case to_number L v of Inl e \<Rightarrow> Inl e | Inr n \<Rightarrow> Inr (js_gt n (Fin 10)))"

text \<open>\<^verbatim>\<open>items && items.length > 10\<close>\<close>

fun length_gt10 :: "js_lib \<Rightarrow> jsval option \<Rightarrow> js_error + bool" where
  "length_gt10 L None = Inr False"
| "length_gt10 L (Some v) =
     (if truthy (Some v) then gt10 L (jget v ''length'') else Inr False)"

definition processOrderCreated ::
  "js_lib \<Rightarrow> jsval \<Rightarrow> js_error + (string \<times> string)" where
  "processOrderCreated L orderDetail =
     (let items = jget orderDetail ''items'';
          decision = (''CONFIRMED'', ''Order processed successfully'')
      in case length_gt10 L items of
           Inl e \<Rightarrow> Inl e
         | Inr large \<Rightarrow>
             (let decision = (if large
                              then (''PENDING_REVIEW'', ''Large order requires manual review'')
                              else decision)
              in case items_reduce L items of
                   Inl e \<Rightarrow> Inl e
                 | Inr r \<Rightarrow>
                     (let totalValue = num_or0 r
                      in Inr (if js_gt totalValue (Fin 10000)
                              then (''PENDING_APPROVAL'', ''High-value order requires approval'')
                              else decision))))"

section \<open>The document store\<close>

text \<open>
  The orders table maps the partition key \<^verbatim>\<open>id\<close>, a string, to the item's attributes.
  A store call can also run into a fault of the infrastructure (throttling, a network
  error); which call does is the environment's choice and comes in as an argument.
\<close>

type_synonym attrs = "(string \<times> jsval) list"

type_synonym table = "string \<rightharpoonup> attrs"

text \<open>Writing one attribute: in place when the item has it, at the end otherwise.\<close>

fun obj_set :: "string \<Rightarrow> jsval \<Rightarrow> attrs \<Rightarrow> attrs" where
  "obj_set k v [] = [(k, v)]"
| "obj_set k v ((k', v') # kvs) =
     (if k' = k then (k, v) # kvs else (k', v') # obj_set k v kvs)"

text \<open>
  \<^verbatim>\<open>UpdateCommand\<close> with \<^verbatim>\<open>SET\<close> clauses under the condition \<^verbatim>\<open>attribute_exists(id)\<close>,
  returning \<^verbatim>\<open>ALL_NEW\<close>. A key that is not a string does not fit the table's key schema.
  What is thrown in either case is the client's error object.
\<close>

definition update_item ::
  "js_lib \<Rightarrow> table \<Rightarrow> jsval \<Rightarrow> attrs \<Rightarrow> js_error + (table \<times> attrs)" where
  "update_item L tbl key sets =
     (case key of
        JStr k \<Rightarrow>
          (case tbl k of
             None \<Rightarrow> Inl (condition_failed L)
           | Some item \<Rightarrow>
               (let new = fold (\<lambda>(a, v). obj_set a v) sets item
                in Inr (tbl(k \<mapsto> new), new)))
      | _ \<Rightarrow> Inl (key_rejected L))"

text \<open>\<^verbatim>\<open>PutCommand\<close> under the condition \<^verbatim>\<open>attribute_not_exists(id)\<close>.\<close>

definition put_item :: "js_lib \<Rightarrow> table \<Rightarrow> string \<Rightarrow> attrs \<Rightarrow> js_error + table" where
  "put_item L tbl k item =
     (case tbl k of
        None \<Rightarrow> Inr (tbl(k \<mapsto> item))
      | Some old \<Rightarrow> Inl (condition_failed L))"

section \<open>Order processor: the batch handler\<close>

text \<open>
  A record of the batch: its identifier and its body, the body kept as what
  \<^verbatim>\<open>JSON.parse(record.body)\<close> makes of it.
\<close>

record sqs_record =
  messageId :: string
  body :: parsed

text \<open>
  Why a message was put on the failure list. The handler's comments and log lines class
  the first six as not to be retried and the last as transient.
\<close>

datatype failure =
    ParseFailure
  | InvalidStructure
  | MissingOrderId
  | UnknownType
  | OrderNotFound
  | StoreValidation
  | Transient

datatype outcome = Processed | Failed failure

fun permanent :: "failure \<Rightarrow> bool" where
  "permanent Transient = False"
| "permanent f = True"

text \<open>The \<^verbatim>\<open>catch\<close> block of the loop body.\<close>

fun classify :: "js_error \<Rightarrow> failure" where
  "classify (JsError code) =
     (if code = Some ''ConditionalCheckFailedException'' then OrderNotFound
      else if code = Some ''ValidationException'' then StoreValidation
      else Transient)"

text \<open>
  One pass of the loop body, for the parsed message body. \<open>fault\<close> is the fault the
  store call of this message runs into, if it makes one; \<open>now\<close> is the clock reading
  written to \<^verbatim>\<open>updatedAt\<close>.
\<close>

fun process_message ::
  "js_lib \<Rightarrow> string \<Rightarrow> js_error option \<Rightarrow> table \<Rightarrow> parsed \<Rightarrow> outcome \<times> table" where
  "process_message L now fault tbl SyntaxError = (Failed ParseFailure, tbl)"
| "process_message L now fault tbl (Json JNull) = (Failed (classify TypeError), tbl)"
| "process_message L now fault tbl (Json messageBody) =
     (if \<not> truthy (jget messageBody ''type'') \<or> \<not> truthy (jget messageBody ''detail'')
      then (Failed InvalidStructure, tbl)
      else if jget messageBody ''type'' = Some (JStr ''OrderCreated'')
      then
        (case jget messageBody ''detail'' of
           None \<Rightarrow> (Failed InvalidStructure, tbl)
         | Some detail \<Rightarrow>
             (case jget detail ''id'' of
                None \<Rightarrow> (Failed MissingOrderId, tbl)
              | Some orderId \<Rightarrow>
                  if \<not> truthy (Some orderId) then (Failed MissingOrderId, tbl)
                  else
                    (case processOrderCreated L detail of
                       Inl e \<Rightarrow> (Failed (classify e), tbl)
                     | Inr (newStatus, processingNotes) \<Rightarrow>
                         (case fault of
                            Some e \<Rightarrow> (Failed (classify e), tbl)
                          | None \<Rightarrow>
                              (case update_item L tbl orderId
                                      [(''status'', JStr newStatus),
                                       (''updatedAt'', JStr now),
                                       (''processingNotes'', JStr processingNotes)] of
                                 Inl e \<Rightarrow> (Failed (classify e), tbl)
                               | Inr (tbl', updated) \<Rightarrow> (Processed, tbl'))))))
      else (Failed UnknownType, tbl))"

text \<open>
  The loop over \<^verbatim>\<open>event.Records\<close>, pushing onto \<^verbatim>\<open>batchItemFailures\<close>. \<open>faults\<close> gives, for
  a message identifier, the fault its store call meets.
\<close>

fun process_records ::
  "js_lib \<Rightarrow> string \<Rightarrow> (string \<Rightarrow> js_error option) \<Rightarrow> table \<Rightarrow>
   sqs_record list \<Rightarrow> string list \<Rightarrow> string list \<times> table" where
  "process_records L now faults tbl [] batchItemFailures = (batchItemFailures, tbl)"
| "process_records L now faults tbl (r # records) batchItemFailures =
     (case process_message L now (faults (messageId r)) tbl (body r) of
        (Processed, tbl') \<Rightarrow> process_records L now faults tbl' records batchItemFailures
      | (Failed f, tbl') \<Rightarrow>
          process_records L now faults tbl' records (batchItemFailures @ [messageId r]))"

definition handler_processor ::
  "js_lib \<Rightarrow> string \<Rightarrow> (string \<Rightarrow> js_error option) \<Rightarrow> table \<Rightarrow>
   sqs_record list \<Rightarrow> string list \<times> table" where
  "handler_processor L now faults tbl Records =
     process_records L now faults tbl Records []"

section \<open>Strings\<close>

text \<open>
  White space and line terminators, as \<^verbatim>\<open>trim\<close> and \<^verbatim>\<open>parseInt\<close> skip them, among the
  8-bit characters: TAB, LF, VT, FF, CR, space and the no-break space.
\<close>

definition is_ws :: "char \<Rightarrow> bool" where
  "is_ws c \<longleftrightarrow> (of_char c :: nat) \<in> {9, 10, 11, 12, 13, 32, 160}"

definition js_trim :: "string \<Rightarrow> string" where
  "js_trim s = rev (dropWhile is_ws (rev (dropWhile is_ws s)))"

text \<open>A number in a template literal (only array indices are printed).\<close>

fun show_nat :: "nat \<Rightarrow> string" where
  "show_nat n =
     (if n < 10 then [''0123456789'' ! n]
      else show_nat (n div 10) @ [''0123456789'' ! (n mod 10)])"

declare show_nat.simps [simp del]

text \<open>\<^verbatim>\<open>errors.join(', ')\<close>\<close>

fun join_comma :: "string list \<Rightarrow> string" where
  "join_comma [] = []"
| "join_comma [x] = x"
| "join_comma (x # y # zs) = x @ '', '' @ join_comma (y # zs)"

section \<open>Order intake: validation\<close>

text \<open>
  \<^verbatim>\<open>validateOrderData\<close> collects messages; each message is kept here as a value and
  rendered as the source's text by \<open>render\<close>.
\<close>

datatype verr =
    BodyRequired
  | CustomerNameInvalid
  | ItemsInvalid
  | ItemSku nat
  | ItemQty nat
  | ItemPrice nat

fun render :: "verr \<Rightarrow> string" where
  "render BodyRequired = ''Request body is required''"
| "render CustomerNameInvalid = ''customerName is required and must be a non-empty string''"
| "render ItemsInvalid = ''items must be a non-empty array''"
| "render (ItemSku i) = ''Item '' @ show_nat i @ '': sku is required and must be a string''"
| "render (ItemQty i) =
     ''Item '' @ show_nat i @ '': qty is required and must be a positive number''"
| "render (ItemPrice i) =
     ''Item '' @ show_nat i @ '': price must be a non-negative number''"

text \<open>
  \<^verbatim>\<open>!body.customerName || typeof body.customerName !== 'string' ||
  body.customerName.trim().length === 0\<close>\<close>

fun blank :: "jsval option \<Rightarrow> bool" where
  "blank (Some (JStr s)) = (length (js_trim s) = 0)"
| "blank v = False"

definition customerName_bad :: "jsval option \<Rightarrow> bool" where
  "customerName_bad cn \<longleftrightarrow> \<not> truthy cn \<or> typeof cn \<noteq> ''string'' \<or> blank cn"

definition sku_bad :: "jsval option \<Rightarrow> bool" where
  "sku_bad sku \<longleftrightarrow> \<not> truthy sku \<or> typeof sku \<noteq> ''string''"

text \<open>\<^verbatim>\<open>item.qty <= 0\<close>, reached only for a number.\<close>

fun num_le0 :: "jsval option \<Rightarrow> bool" where
  "num_le0 (Some (JNum r)) = (r \<le> 0)"
| "num_le0 v = False"

fun num_lt0 :: "jsval option \<Rightarrow> bool" where
  "num_lt0 (Some (JNum r)) = (r < 0)"
| "num_lt0 v = False"

definition qty_bad :: "jsval option \<Rightarrow> bool" where
  "qty_bad qty \<longleftrightarrow> \<not> truthy qty \<or> typeof qty \<noteq> ''number'' \<or> num_le0 qty"

definition price_bad :: "jsval option \<Rightarrow> bool" where
  "price_bad price \<longleftrightarrow> price \<noteq> None \<and> (typeof price \<noteq> ''number'' \<or> num_lt0 price)"

text \<open>The body of the \<^verbatim>\<open>forEach\<close>: reading \<^verbatim>\<open>item.sku\<close> of a \<^verbatim>\<open>null\<close> entry throws.\<close>

definition item_errors :: "nat \<Rightarrow> jsval \<Rightarrow> verr list" where
  "item_errors index item =
     (if sku_bad (jget item ''sku'') then [ItemSku index] else []) @
     (if qty_bad (jget item ''qty'') then [ItemQty index] else []) @
     (if price_bad (jget item ''price'') then [ItemPrice index] else [])"

fun check_item :: "nat \<Rightarrow> jsval \<Rightarrow> js_error + verr list" where
  "check_item index JNull = Inl TypeError"
| "check_item index item = Inr (item_errors index item)"

fun check_items :: "nat \<Rightarrow> jsval list \<Rightarrow> verr list \<Rightarrow> js_error + verr list" where
  "check_items index [] errors = Inr errors"
| "check_items index (item # rest) errors =
     (case check_item index item of
        Inl e \<Rightarrow> Inl e
      | Inr es \<Rightarrow> check_items (Suc index) rest (errors @ es))"

record validation =
  isValid :: bool
  errors :: "verr list"

definition validateOrderData :: "jsval \<Rightarrow> js_error + validation" where
  "validateOrderData body' =
     (if \<not> truthy (Some body')
      then Inr \<lparr>isValid = False, errors = [BodyRequired]\<rparr>
      else
        (let errs = (if customerName_bad (jget body' ''customerName'')
                     then [CustomerNameInvalid] else [])
         in case jget body' ''items'' of
              Some (JArr (item # rest)) \<Rightarrow>
                (case check_items 0 (item # rest) errs of
                   Inl e \<Rightarrow> Inl e
                 | Inr errs' \<Rightarrow> Inr \<lparr>isValid = (length errs' = 0), errors = errs'\<rparr>)
            | _ \<Rightarrow>
                (let errs' = errs @ [ItemsInvalid]
                 in Inr \<lparr>isValid = (length errs' = 0), errors = errs'\<rparr>)))"

section \<open>Order intake: the handler\<close>

text \<open>
  \<^verbatim>\<open>event.body\<close> is absent (or empty), or a text that \<^verbatim>\<open>JSON.parse\<close> has been run on;
  \<^verbatim>\<open>JSON.parse(event.body || '{}')\<close> reads an absent body as the empty object.
\<close>

datatype request_body = BodyAbsent | BodyText parsed

fun parse_body :: "request_body \<Rightarrow> parsed" where
  "parse_body BodyAbsent = Json (JObj [])"
| "parse_body (BodyText p) = p"

text \<open>A response: the status code and the value whose JSON text is the body.\<close>

record http_response =
  statusCode :: nat
  payload :: jsval

definition error_response :: "nat \<Rightarrow> string \<Rightarrow> string \<Rightarrow> http_response" where
  "error_response code err msg =
     \<lparr>statusCode = code, payload = JObj [(''error'', JStr err), (''message'', JStr msg)]\<rparr>"

text \<open>An object literal: a property whose value is \<^verbatim>\<open>undefined\<close> is not stored or sent.\<close>

fun obj_lit :: "(string \<times> jsval option) list \<Rightarrow> attrs" where
  "obj_lit [] = []"
| "obj_lit ((k, None) # kvs) = obj_lit kvs"
| "obj_lit ((k, Some v) # kvs) = (k, v) # obj_lit kvs"

definition new_item :: "jsval \<Rightarrow> jsval" where
  "new_item item =
     JObj (obj_lit [(''sku'', jget item ''sku''),
                    (''qty'', jget item ''qty''),
                    (''price'', Some (or0 (jget item ''price'')))])"

fun trimmed :: "jsval option \<Rightarrow> jsval option" where
  "trimmed (Some (JStr s)) = Some (JStr (js_trim s))"
| "trimmed v = None"

fun array_elems :: "jsval option \<Rightarrow> jsval list" where
  "array_elems (Some (JArr xs)) = xs"
| "array_elems v = []"

text \<open>The order as built after a successful validation.\<close>

definition new_order :: "string \<Rightarrow> string \<Rightarrow> jsval \<Rightarrow> attrs" where
  "new_order orderId timestamp orderData =
     obj_lit [(''id'', Some (JStr orderId)),
              (''customerName'', trimmed (jget orderData ''customerName'')),
              (''items'', Some (JArr (map new_item (array_elems (jget orderData ''items''))))),
              (''status'', Some (JStr ''PENDING'')),
              (''createdAt'', Some (JStr timestamp)),
              (''updatedAt'', Some (JStr timestamp))]"

definition order_event :: "string \<Rightarrow> string \<Rightarrow> attrs \<Rightarrow> jsval" where
  "order_event orderId timestamp order =
     JObj [(''type'', JStr ''OrderCreated''),
           (''timestamp'', JStr timestamp),
           (''detail'', JObj (obj_lit [(''id'', Some (JStr orderId)),
                                       (''customerName'', map_of order ''customerName''),
                                       (''items'', map_of order ''items''),
                                       (''createdAt'', Some (JStr timestamp))]))]"

text \<open>The outer \<^verbatim>\<open>catch\<close> of the intake handler.\<close>

fun create_failure :: "string \<Rightarrow> js_error \<Rightarrow> http_response" where
  "create_failure requestId (JsError code) =
     (if code = Some ''ConditionalCheckFailedException''
      then error_response 409 ''Conflict'' ''Order with this ID already exists''
      else \<lparr>statusCode = 500,
            payload = JObj [(''error'', JStr ''Internal Server Error''),
                            (''message'',
                             JStr ''An unexpected error occurred while processing your request''),
                            (''requestId'', JStr requestId)]\<rparr>)"

text \<open>
  The environment of one call: the request identifier, the identifier \<^verbatim>\<open>uuid()\<close>
  returns, the clock reading, and the faults the store write and the queue send run into.
\<close>

record create_env =
  request_id :: string
  new_id :: string
  clock :: string
  put_fault :: "js_error option"
  send_fault :: "js_error option"

text \<open>
  The handler returns the response, the table and the queue's messages. When the
  validation fails, the warning's argument \<^verbatim>\<open>orderData.items?.length\<close> is evaluated before the
  response is built; it throws on a parsed body of \<^verbatim>\<open>null\<close>, and the outer \<^verbatim>\<open>catch\<close> answers.
\<close>

definition handler_create ::
  "js_lib \<Rightarrow> create_env \<Rightarrow> table \<Rightarrow> jsval list \<Rightarrow> request_body \<Rightarrow>
   http_response \<times> table \<times> jsval list" where
  "handler_create L env tbl queue b =
     (case parse_body b of
        SyntaxError \<Rightarrow>
          (error_response 400 ''Invalid JSON format'' ''Request body must be valid JSON'',
           tbl, queue)
      | Json orderData \<Rightarrow>
          (case validateOrderData orderData of
             Inl e \<Rightarrow> (create_failure (request_id env) e, tbl, queue)
           | Inr v \<Rightarrow>
               if \<not> isValid v
               then
                 (case orderData of
                    JNull \<Rightarrow> (create_failure (request_id env) TypeError, tbl, queue)
                  | _ \<Rightarrow>
                      (error_response 400 ''Validation failed''
                         (join_comma (map render (errors v))), tbl, queue))
               else
                 (let orderId = new_id env;
                      timestamp = clock env;
                      order = new_order orderId timestamp orderData
                  in case put_fault env of
                       Some e \<Rightarrow> (create_failure (request_id env) e, tbl, queue)
                     | None \<Rightarrow>
                         (case put_item L tbl orderId order of
                            Inl e \<Rightarrow> (create_failure (request_id env) e, tbl, queue)
                          | Inr tbl' \<Rightarrow>
                              (case send_fault env of
                                 Some e \<Rightarrow> (create_failure (request_id env) e, tbl', queue)
                               | None \<Rightarrow>
                                   (\<lparr>statusCode = 201,
                                     payload =
                                       JObj [(''success'', JBool True),
                                             (''data'',
                                              JObj [(''id'', JStr orderId),
                                                    (''status'', JStr ''PENDING''),
                                                    (''createdAt'', JStr timestamp)]),
                                             (''message'', JStr ''Order created successfully'')]\<rparr>,
                                    tbl',
                                    queue @ [order_event orderId timestamp order]))))))"

section \<open>Order query: one order by identifier\<close>

text \<open>
  \<^verbatim>\<open>/^[0-9a-f]{8}-[0-9a-f]{4}-[1-5][0-9a-f]{3}-[89ab][0-9a-f]{3}-[0-9a-f]{12}$/i\<close>:
  one character class per position, 36 positions, upper and lower case alike.
\<close>

definition is_hex :: "char \<Rightarrow> bool" where
  "is_hex c \<longleftrightarrow> c \<in> set ''0123456789abcdefABCDEF''"

definition is_dash :: "char \<Rightarrow> bool" where
  "is_dash c \<longleftrightarrow> c = CHR ''-''"

definition is_version :: "char \<Rightarrow> bool" where
  "is_version c \<longleftrightarrow> c \<in> set ''12345''"

definition is_variant :: "char \<Rightarrow> bool" where
  "is_variant c \<longleftrightarrow> c \<in> set ''89abAB''"

definition uuidRegex :: "(char \<Rightarrow> bool) list" where
  "uuidRegex =
     replicate 8 is_hex @ [is_dash] @
     replicate 4 is_hex @ [is_dash] @
     [is_version] @ replicate 3 is_hex @ [is_dash] @
     [is_variant] @ replicate 3 is_hex @ [is_dash] @
     replicate 12 is_hex"

definition isValidUUID :: "string \<Rightarrow> bool" where
  "isValidUUID uuid \<longleftrightarrow> list_all2 (\<lambda>cls c. cls c) uuidRegex uuid"

text \<open>
  \<^verbatim>\<open>parseFloat(x.toFixed(2))\<close>: below \<open>10\<^sup>2\<^sup>1\<close> the magnitude of the double is rounded to the
  nearest hundredth, a tie going up, and the decimal text of that is read back as the
  nearest double; from there on the number is printed and read back as it is.
\<close>

definition round_cents :: "rat \<Rightarrow> rat" where
  "round_cents r = sgn r * of_int \<lfloor>\<bar>r\<bar> * 100 + 1 / 2\<rfloor> / 100"

fun toFixed2 :: "jsnum \<Rightarrow> jsnum" where
  "toFixed2 (Fin r) = (if 10 ^ 21 \<le> \<bar>r\<bar> then Fin r else round_double (round_cents r))"
| "toFixed2 x = x"

text \<open>A number in a JSON text: NaN and the infinities are written \<^verbatim>\<open>null\<close>.\<close>

fun num_json :: "jsnum \<Rightarrow> jsval" where
  "num_json (Fin r) = JNum r"
| "num_json x = JNull"

text \<open>\<^verbatim>\<open>order.items && Array.isArray(order.items)\<close> guards the reducer.\<close>

fun orderTotal :: "js_lib \<Rightarrow> jsval option \<Rightarrow> js_error + jsnum" where
  "orderTotal L (Some (JArr xs)) = reduce_total L (Fin 0) xs"
| "orderTotal L v = Inr (Fin 0)"

text \<open>\<^verbatim>\<open>order.items?.length || 0\<close>\<close>

fun itemCount :: "jsval option \<Rightarrow> jsval" where
  "itemCount None = JNum 0"
| "itemCount (Some JNull) = JNum 0"
| "itemCount (Some v) = or0 (jget v ''length'')"

text \<open>
  \<^verbatim>\<open>{ ...order, itemCount, orderTotal }\<close>, the same in the single read and in the
  listing: the stored attributes with the two derived ones written over them.
\<close>

definition enrich :: "js_lib \<Rightarrow> attrs \<Rightarrow> js_error + attrs" where
  "enrich L order =
     (let items = map_of order ''items''
      in case orderTotal L items of
           Inl e \<Rightarrow> Inl e
         | Inr t \<Rightarrow>
             Inr (obj_set ''orderTotal'' (num_json (toFixed2 t))
                    (obj_set ''itemCount'' (itemCount items) order)))"

text \<open>The outer \<^verbatim>\<open>catch\<close> of the read handler.\<close>

fun get_failure :: "string \<Rightarrow> js_error \<Rightarrow> http_response" where
  "get_failure requestId (JsError code) =
     (if code = Some ''ResourceNotFoundException''
      then error_response 404 ''Not Found'' ''The requested resource was not found''
      else if code = Some ''ProvisionedThroughputExceededException''
      then error_response 429 ''Too Many Requests''
             ''Database is currently busy. Please try again in a moment.''
      else \<lparr>statusCode = 500,
            payload = JObj [(''error'', JStr ''Internal Server Error''),
                            (''message'',
                             JStr ''An unexpected error occurred while retrieving the order''),
                            (''requestId'', JStr requestId)]\<rparr>)"

text \<open>
  The read handler: \<open>pathId\<close> is \<^verbatim>\<open>event.pathParameters?.id\<close>, \<open>fault\<close> the fault the
  consistent read runs into. The handler sends no write, so the table it leaves is the
  table it found.
\<close>

definition handler_get ::
  "js_lib \<Rightarrow> string \<Rightarrow> js_error option \<Rightarrow> table \<Rightarrow> string option \<Rightarrow>
   http_response \<times> table" where
  "handler_get L requestId fault tbl pathId =
     (case pathId of
        None \<Rightarrow>
          (error_response 400 ''Bad Request'' ''Order ID is required in the URL path'', tbl)
      | Some orderId \<Rightarrow>
          if orderId = [] then
            (error_response 400 ''Bad Request'' ''Order ID is required in the URL path'', tbl)
          else if \<not> isValidUUID orderId then
            (error_response 400 ''Bad Request''
               ''Invalid order ID format. Must be a valid UUID.'', tbl)
          else
            (case fault of
               Some e \<Rightarrow> (get_failure requestId e, tbl)
             | None \<Rightarrow>
                 (case tbl orderId of
                    None \<Rightarrow>
                      (error_response 404 ''Not Found''
                         (''Order with ID '' @ orderId @ '' was not found''), tbl)
                  | Some order \<Rightarrow>
                      (case enrich L order of
                         Inl e \<Rightarrow> (get_failure requestId e, tbl)
                       | Inr data \<Rightarrow>
                           (\<lparr>statusCode = 200,
                             payload = JObj [(''success'', JBool True),
                                             (''data'', JObj data)]\<rparr>, tbl)))))"

section \<open>Order query: the listing\<close>

text \<open>
  \<^verbatim>\<open>parseInt(s, 10)\<close>: leading white space is skipped, one sign is read, then the longest
  run of decimal digits; with no digit the result is NaN (\<open>None\<close>). What follows the
  digits is ignored.
\<close>

definition is_digit :: "char \<Rightarrow> bool" where
  "is_digit c \<longleftrightarrow> c \<in> set ''0123456789''"

definition digit_val :: "char \<Rightarrow> nat" where
  "digit_val c = (of_char c :: nat) - 48"

definition digits_val :: "string \<Rightarrow> nat" where
  "digits_val ds = foldl (\<lambda>a c. 10 * a + digit_val c) 0 ds"

fun split_sign :: "string \<Rightarrow> bool \<times> string" where
  "split_sign [] = (False, [])"
| "split_sign (c # cs) =
     (if c = CHR ''-'' then (True, cs)
      else if c = CHR ''+'' then (False, cs)
      else (False, c # cs))"

definition parseInt :: "string \<Rightarrow> int option" where
  "parseInt s =
     (let (neg, rest) = split_sign (dropWhile is_ws s);
          ds = takeWhile is_digit rest
      in if ds = [] then None
         else Some (if neg then - int (digits_val ds) else int (digits_val ds)))"

text \<open>\<^verbatim>\<open>toLowerCase\<close> on 8-bit characters: A to Z and the accented capitals.\<close>

definition lower_char :: "char \<Rightarrow> char" where
  "lower_char c =
     (let n = (of_char c :: nat)
      in if (65 \<le> n \<and> n \<le> 90) \<or> (192 \<le> n \<and> n \<le> 222 \<and> n \<noteq> 215)
         then char_of (n + 32) else c)"

definition toLowerCase :: "string \<Rightarrow> string" where
  "toLowerCase s = map lower_char s"

text \<open>
  \<^verbatim>\<open>event.queryStringParameters\<close>: every parameter is a text or absent. The result of
  \<^verbatim>\<open>parseQueryParameters\<close> starts from the defaults; \<^verbatim>\<open>lastEvaluatedKey\<close> starts as \<^verbatim>\<open>null\<close>.
\<close>

record query_string =
  q_limit :: "string option"
  q_status :: "string option"
  q_sortOrder :: "string option"
  q_nextToken :: "string option"

record list_params =
  p_limit :: int
  p_status :: "string option"
  p_sortOrder :: string
  p_lastEvaluatedKey :: jsval

definition default_params :: list_params where
  "default_params =
     \<lparr>p_limit = 10, p_status = None, p_sortOrder = ''desc'', p_lastEvaluatedKey = JNull\<rparr>"

text \<open>A text parameter used as a condition: absent and empty are falsy.\<close>

fun present :: "string option \<Rightarrow> string option" where
  "present None = None"
| "present (Some s) = (if s = [] then None else Some s)"

definition parse_limit :: "string option \<Rightarrow> list_params \<Rightarrow> list_params" where
  "parse_limit q params =
     (case present q of
        None \<Rightarrow> params
      | Some s \<Rightarrow>
          (case parseInt s of
             None \<Rightarrow> params
           | Some limit \<Rightarrow>
               if 0 < limit \<and> limit \<le> 100 then params\<lparr>p_limit := limit\<rparr> else params))"

definition parse_status :: "string option \<Rightarrow> list_params \<Rightarrow> list_params" where
  "parse_status q params =
     (case present q of
        None \<Rightarrow> params
      | Some s \<Rightarrow>
          if s \<in> set [''PENDING'', ''CONFIRMED'', ''PENDING_REVIEW'', ''PENDING_APPROVAL'',
                       ''CANCELLED'']
          then params\<lparr>p_status := Some s\<rparr> else params)"

definition parse_sortOrder :: "string option \<Rightarrow> list_params \<Rightarrow> list_params" where
  "parse_sortOrder q params =
     (case present q of
        None \<Rightarrow> params
      | Some s \<Rightarrow>
          if toLowerCase s \<in> set [''asc'', ''desc'']
          then params\<lparr>p_sortOrder := toLowerCase s\<rparr> else params)"

text \<open>
  The token is decoded by \<^verbatim>\<open>JSON.parse(Buffer.from(token, 'base64').toString())\<close>, the
  parameter \<open>decode\<close>; when that throws, a warning is logged and the key stays \<^verbatim>\<open>null\<close>.
  A log line is its level and its message.
\<close>

definition parse_nextToken ::
  "(string \<Rightarrow> parsed) \<Rightarrow> string option \<Rightarrow> list_params \<Rightarrow> list_params \<times> (string \<times> string) list" where
  "parse_nextToken decode q params =
     (case present q of
        None \<Rightarrow> (params, [])
      | Some token \<Rightarrow>
          (case decode token of
             Json key \<Rightarrow> (params\<lparr>p_lastEvaluatedKey := key\<rparr>, [])
           | SyntaxError \<Rightarrow> (params, [(''warn'', ''Invalid pagination token provided'')])))"

definition parseQueryParameters ::
  "(string \<Rightarrow> parsed) \<Rightarrow> query_string option \<Rightarrow> list_params \<times> (string \<times> string) list" where
  "parseQueryParameters decode queryStringParameters =
     (case queryStringParameters of
        None \<Rightarrow> (default_params, [])
      | Some q \<Rightarrow>
          parse_nextToken decode (q_nextToken q)
            (parse_sortOrder (q_sortOrder q)
               (parse_status (q_status q)
                  (parse_limit (q_limit q) default_params))))"

text \<open>
  The request sent to the store: a query on \<^verbatim>\<open>StatusIndex\<close> when a status is given, a
  scan otherwise; \<^verbatim>\<open>ExclusiveStartKey\<close> is set when the key is truthy.
\<close>

datatype db_request =
    QueryStatusIndex string int bool "jsval option"
  | ScanTable int "jsval option"

definition start_key :: "jsval \<Rightarrow> jsval option" where
  "start_key k = (if truthy (Some k) then Some k else None)"

definition list_request :: "list_params \<Rightarrow> db_request" where
  "list_request params =
     (case present (p_status params) of
        Some st \<Rightarrow>
          QueryStatusIndex st (p_limit params) (p_sortOrder params = ''asc'')
            (start_key (p_lastEvaluatedKey params))
      | None \<Rightarrow> ScanTable (p_limit params) (start_key (p_lastEvaluatedKey params)))"

text \<open>What the store answers: \<^verbatim>\<open>Items\<close> and \<^verbatim>\<open>LastEvaluatedKey\<close>, either of them absent.\<close>

record db_result =
  Items :: "attrs list option"
  LastEvaluatedKey :: "jsval option"

fun enrich_all :: "js_lib \<Rightarrow> attrs list \<Rightarrow> js_error + attrs list" where
  "enrich_all L [] = Inr []"
| "enrich_all L (order # orders) =
     (case enrich L order of
        Inl e \<Rightarrow> Inl e
      | Inr x \<Rightarrow>
          (case enrich_all L orders of
             Inl e \<Rightarrow> Inl e
           | Inr xs \<Rightarrow> Inr (x # xs)))"

fun list_failure :: "string \<Rightarrow> js_error \<Rightarrow> http_response" where
  "list_failure requestId (JsError code) =
     (if code = Some ''ProvisionedThroughputExceededException''
      then error_response 429 ''Too Many Requests''
             ''Database is currently busy. Please try again in a moment.''
      else if code = Some ''ResourceNotFoundException''
      then error_response 404 ''Not Found'' ''Orders table not found''
      else \<lparr>statusCode = 500,
            payload = JObj [(''error'', JStr ''Internal Server Error''),
                            (''message'',
                             JStr ''An unexpected error occurred while retrieving orders''),
                            (''requestId'', JStr requestId)]\<rparr>)"

text \<open>
  What the listing takes from outside the source: the token decoder, the store's answer
  to a request, the sort of a scanned page by \<^verbatim>\<open>createdAt\<close> (given the sort order), and
  the encoder of the next token. Of the log, the warning about the token is kept; the
  informational lines are left out.
\<close>

record list_env =
  decode_token :: "string \<Rightarrow> parsed"
  send :: "db_request \<Rightarrow> js_error + db_result"
  sort_createdAt :: "string \<Rightarrow> attrs list \<Rightarrow> attrs list"
  encode_token :: "jsval \<Rightarrow> string"

fun opt_json :: "string option \<Rightarrow> jsval" where
  "opt_json None = JNull"
| "opt_json (Some s) = JStr s"

definition handler_list ::
  "js_lib \<Rightarrow> string \<Rightarrow> list_env \<Rightarrow> query_string option \<Rightarrow>
   http_response \<times> (string \<times> string) list" where
  "handler_list L requestId env queryStringParameters =
     (let (queryParams, logs) = parseQueryParameters (decode_token env) queryStringParameters
      in case send env (list_request queryParams) of
           Inl e \<Rightarrow> (list_failure requestId e, logs)
         | Inr result \<Rightarrow>
             (let orders = (case Items result of None \<Rightarrow> [] | Some xs \<Rightarrow> xs);
                  orders = (if present (p_status queryParams) = None
                            then sort_createdAt env (p_sortOrder queryParams) orders
                            else orders)
              in case enrich_all L orders of
                   Inl e \<Rightarrow> (list_failure requestId e, logs)
                 | Inr enrichedOrders \<Rightarrow>
                     (let nextToken =
                            (if truthy (LastEvaluatedKey result)
                             then map_option (encode_token env) (LastEvaluatedKey result)
                             else None)
                      in (\<lparr>statusCode = 200,
                           payload =
                             JObj [(''success'', JBool True),
                                   (''data'',
                                    JObj [(''orders'', JArr (map JObj enrichedOrders)),
                                          (''pagination'',
                                           JObj [(''limit'', JNum (of_int (p_limit queryParams))),
                                                 (''count'',
                                                  JNum (of_nat (length enrichedOrders))),
                                                 (''hasMore'', JBool (present nextToken \<noteq> None)),
                                                 (''nextToken'', opt_json nextToken)]),
                                          (''filters'',
                                           JObj [(''status'', opt_json (p_status queryParams)),
                                                 (''sortOrder'',
                                                  JStr (p_sortOrder queryParams))])])]\<rparr>,
                          logs))))"

section \<open>The total as the specification words it\<close>

text \<open>
  The sum over the items of qty times price, a missing price or qty counting as 0: the
  exact sum, before any rounding.
\<close>

fun field_or0 :: "jsval option \<Rightarrow> rat" where
  "field_or0 (Some (JNum r)) = r"
| "field_or0 v = 0"

definition spec_total :: "jsval list \<Rightarrow> rat" where
  "spec_total xs = (\<Sum>x\<leftarrow>xs. field_or0 (jget x ''qty'') * field_or0 (jget x ''price''))"

text \<open>
  Orders in whole numbers: every qty and price is absent or a whole number, and the
  amounts of the lines add up to \<open>2\<^sup>5\<^sup>3\<close> at most. On these the double arithmetic is exact.
\<close>

fun whole_or_absent :: "jsval option \<Rightarrow> bool" where
  "whole_or_absent None = True"
| "whole_or_absent (Some (JNum r)) = (r = of_int \<lfloor>r\<rfloor>)"
| "whole_or_absent (Some v) = False"

definition whole_item :: "jsval \<Rightarrow> bool" where
  "whole_item x \<longleftrightarrow>
     x \<noteq> JNull \<and> whole_or_absent (jget x ''price'') \<and> whole_or_absent (jget x ''qty'')"

definition line_size :: "jsval \<Rightarrow> rat" where
  "line_size x = \<bar>field_or0 (jget x ''qty'') * field_or0 (jget x ''price'')\<bar>"

definition whole_order :: "jsval list \<Rightarrow> bool" where
  "whole_order xs \<longleftrightarrow> list_all whole_item xs \<and> (\<Sum>x\<leftarrow>xs. line_size x) \<le> 2 ^ 53"

text \<open>
  A library for the examples: none of them converts a string, and the client's errors
  carry no code.
\<close>

definition example_lib :: js_lib where
  "example_lib =
     \<lparr>string_to_number = (\<lambda>s. NaN), condition_failed = JsError None,
      key_rejected = JsError None\<rparr>"

text \<open>
  Two lists of items in exactly representable numbers. The first adds up to more than
  10000 and the running sum stays at 10000; the second adds up to 10000 and the running
  sum ends above it.
\<close>

definition priced :: "rat \<Rightarrow> jsval" where
  "priced p = JObj [(''sku'', JStr ''x''), (''qty'', JNum 1), (''price'', JNum p)]"

definition example_rounded_down :: "jsval list" where
  "example_rounded_down = [priced 10000, priced (1 / 2 ^ 44)]"

definition example_rounded_up :: "jsval list" where
  "example_rounded_up =
     [priced 8192, priced (5 / 2 ^ 42), priced (5 / 2 ^ 42), priced (1808 - 10 / 2 ^ 42)]"

section \<open>Notions the claims about the batch use\<close>


text \<open>An OrderCreated event as the intake handler sends it, and a table of two orders.\<close>

definition example_event :: "string \<Rightarrow> jsval list \<Rightarrow> jsval" where
  "example_event k xs =
     JObj [(''type'', JStr ''OrderCreated''),
           (''timestamp'', JStr ''2025-01-01T00:00:00.000Z''),
           (''detail'', JObj [(''id'', JStr k),
                              (''customerName'', JStr ''Alice''),
                              (''items'', JArr xs),
                              (''createdAt'', JStr ''2025-01-01T00:00:00.000Z'')])]"

definition example_item :: jsval where
  "example_item = JObj [(''sku'', JStr ''x''), (''qty'', JNum 1), (''price'', JNum 10)]"

definition example_table :: table where
  "example_table =
     [''o1'' \<mapsto> [(''id'', JStr ''o1''), (''status'', JStr ''PENDING'')],
      ''o3'' \<mapsto> [(''id'', JStr ''o3''), (''status'', JStr ''CANCELLED'')]]"

section \<open>Notions the claim about unpriced events uses\<close>

text \<open>
  An entry of \<^verbatim>\<open>items\<close> that lacks \<^verbatim>\<open>qty\<close> or \<^verbatim>\<open>price\<close>, the other of the two being absent
  or a value that converts to a number; and an \<^verbatim>\<open>items\<close> value that is missing (absent or
  \<^verbatim>\<open>null\<close>) or a list of at most ten such entries, the empty list among them.
\<close>

definition lacks_field :: "jsval \<Rightarrow> bool" where
  "lacks_field x \<longleftrightarrow>
     x \<noteq> JNull \<and>
     (jget x ''qty'' = None \<and> \<not> text_throws (or0 (jget x ''price'')) \<or>
      jget x ''price'' = None \<and> \<not> text_throws (or0 (jget x ''qty'')))"

definition unpriced_items :: "jsval option \<Rightarrow> bool" where
  "unpriced_items items \<longleftrightarrow>
     (case items of
        None \<Rightarrow> True
      | Some JNull \<Rightarrow> True
      | Some (JArr xs) \<Rightarrow> length xs \<le> 10 \<and> list_all lacks_field xs
      | Some v \<Rightarrow> False)"

text \<open>A running total that is 0 or NaN: what \<^verbatim>\<open>|| 0\<close> turns into 0.\<close>

definition zeroish :: "jsnum \<Rightarrow> bool" where
  "zeroish t \<longleftrightarrow> t = Fin 0 \<or> t = NaN"

section \<open>Notions the claim about intake validation uses\<close>

text \<open>
  The claim's own list of what is rejected: the body is missing or does not parse,
  \<^verbatim>\<open>customerName\<close> is missing or blank, \<^verbatim>\<open>items\<close> is missing, empty or not a sequence, or
  some item is missing \<^verbatim>\<open>sku\<close>, has a non-positive \<^verbatim>\<open>qty\<close> or a negative \<^verbatim>\<open>price\<close>.
\<close>

fun nonempty_array :: "jsval option \<Rightarrow> bool" where
  "nonempty_array (Some (JArr (x # xs))) = True"
| "nonempty_array v = False"

definition claimed_bad_item :: "jsval \<Rightarrow> bool" where
  "claimed_bad_item item \<longleftrightarrow>
     jget item ''sku'' = None \<or> num_le0 (jget item ''qty'') \<or> num_lt0 (jget item ''price'')"

fun claimed_invalid :: "request_body \<Rightarrow> bool" where
  "claimed_invalid BodyAbsent = True"
| "claimed_invalid (BodyText SyntaxError) = True"
| "claimed_invalid (BodyText (Json v)) =
     (jget v ''customerName'' = None \<or> blank (jget v ''customerName'') \<or>
      \<not> nonempty_array (jget v ''items'') \<or>
      list_ex claimed_bad_item (array_elems (jget v ''items'')))"

text \<open>
  What the code accepts, in the same terms with the types written out: the parsed body
  is truthy, \<^verbatim>\<open>customerName\<close> is a string that is not blank, \<^verbatim>\<open>items\<close> is a non-empty array,
  and every item has a non-empty string \<^verbatim>\<open>sku\<close>, a number \<^verbatim>\<open>qty\<close> above 0, and a \<^verbatim>\<open>price\<close> that
  is absent or a number not below 0.
\<close>

fun nonblank_string :: "jsval option \<Rightarrow> bool" where
  "nonblank_string (Some (JStr s)) = (js_trim s \<noteq> [])"
| "nonblank_string v = False"

fun nonempty_string :: "jsval option \<Rightarrow> bool" where
  "nonempty_string (Some (JStr s)) = (s \<noteq> [])"
| "nonempty_string v = False"

fun positive_number :: "jsval option \<Rightarrow> bool" where
  "positive_number (Some (JNum r)) = (0 < r)"
| "positive_number v = False"

fun absent_or_nonnegative :: "jsval option \<Rightarrow> bool" where
  "absent_or_nonnegative None = True"
| "absent_or_nonnegative (Some (JNum r)) = (0 \<le> r)"
| "absent_or_nonnegative (Some v) = False"

definition acceptable_item :: "jsval \<Rightarrow> bool" where
  "acceptable_item item \<longleftrightarrow>
     nonempty_string (jget item ''sku'') \<and> positive_number (jget item ''qty'') \<and>
     absent_or_nonnegative (jget item ''price'')"

definition acceptable_order :: "jsval \<Rightarrow> bool" where
  "acceptable_order v \<longleftrightarrow>
     truthy (Some v) \<and> nonblank_string (jget v ''customerName'') \<and>
     nonempty_array (jget v ''items'') \<and>
     list_all acceptable_item (array_elems (jget v ''items''))"

fun rejected :: "parsed \<Rightarrow> bool" where
  "rejected SyntaxError = True"
| "rejected (Json v) = (\<not> acceptable_order v)"

text \<open>
  Neither the parsed body nor an entry of its \<^verbatim>\<open>items\<close> array is \<^verbatim>\<open>null\<close>: the inputs on
  which no property of \<^verbatim>\<open>null\<close> is read.
\<close>

fun no_null_item :: "parsed \<Rightarrow> bool" where
  "no_null_item SyntaxError = True"
| "no_null_item (Json v) = (v \<noteq> JNull \<and> JNull \<notin> set (array_elems (jget v ''items'')))"

text \<open>A call's environment without faults, for the examples.\<close>

definition example_env :: create_env where
  "example_env =
     \<lparr>request_id = ''req-1'', new_id = ''123e4567-e89b-42d3-a456-426614174000'',
      clock = ''2025-01-01T00:00:00.000Z'', put_fault = None, send_fault = None\<rparr>"

section \<open>Notions the claim about the validation message uses\<close>

text \<open>The loop as one expression: the messages of the entries, in order, after those already there.\<close>

definition items_errors :: "nat \<Rightarrow> jsval list \<Rightarrow> verr list" where
  "items_errors i xs = concat (map (\<lambda>(j, x). item_errors j x) (enumerate i xs))"

text \<open>The messages \<^verbatim>\<open>validateOrderData\<close> returns for a parsed body.\<close>

definition violations :: "jsval \<Rightarrow> verr list" where
  "violations v = (case validateOrderData v of Inl e \<Rightarrow> [] | Inr r \<Rightarrow> errors r)"

text \<open>
  Every violated field is listed: the body message alone for a falsy body; otherwise the
  message of \<^verbatim>\<open>customerName\<close>, of \<^verbatim>\<open>items\<close>, and of the \<^verbatim>\<open>sku\<close>, \<^verbatim>\<open>qty\<close> and \<^verbatim>\<open>price\<close> of the entry
  at each index, each present exactly when that field is in violation.
\<close>

definition lists_every_violation :: "jsval \<Rightarrow> verr list \<Rightarrow> bool" where
  "lists_every_violation v es \<longleftrightarrow>
     (if \<not> truthy (Some v) then es = [BodyRequired]
      else
        (CustomerNameInvalid \<in> set es \<longleftrightarrow> \<not> nonblank_string (jget v ''customerName'')) \<and>
        (ItemsInvalid \<in> set es \<longleftrightarrow> \<not> nonempty_array (jget v ''items'')) \<and>
        (\<forall>i. (ItemSku i \<in> set es \<longleftrightarrow>
                 i < length (array_elems (jget v ''items'')) \<and>
                 \<not> nonempty_string (jget (array_elems (jget v ''items'') ! i) ''sku'')) \<and>
              (ItemQty i \<in> set es \<longleftrightarrow>
                 i < length (array_elems (jget v ''items'')) \<and>
                 \<not> positive_number (jget (array_elems (jget v ''items'') ! i) ''qty'')) \<and>
              (ItemPrice i \<in> set es \<longleftrightarrow>
                 i < length (array_elems (jget v ''items'')) \<and>
                 \<not> absent_or_nonnegative (jget (array_elems (jget v ''items'') ! i) ''price''))))"

text \<open>Three request bodies for the examples.\<close>

definition example_bad_body :: jsval where
  "example_bad_body =
     JObj [(''customerName'', JStr ''  ''),
           (''items'', JArr [JObj [(''sku'', JStr ''a''), (''qty'', JNum 0)],
                             JObj [(''qty'', JNum 2), (''price'', JNum (- 1))]])]"

definition example_good_body :: jsval where
  "example_good_body =
     JObj [(''customerName'', JStr ''Alice''),
           (''items'', JArr [JObj [(''sku'', JStr ''x''), (''qty'', JNum 1), (''price'', JNum 10)]])]"

definition example_string_price_body :: jsval where
  "example_string_price_body =
     JObj [(''customerName'', JStr ''Alice''),
           (''items'', JArr [JObj [(''sku'', JStr ''x''), (''qty'', JNum 1),
                                   (''price'', JStr ''10'')]])]"

section \<open>Notions the claims about the single read use\<close>

text \<open>A field of the \<^verbatim>\<open>data\<close> object of a response.\<close>

definition data_field :: "http_response \<Rightarrow> string \<Rightarrow> jsval option" where
  "data_field r k =
     (case payload r of
        JObj kvs \<Rightarrow> (case map_of kvs ''data'' of Some (JObj d) \<Rightarrow> map_of d k | _ \<Rightarrow> None)
      | _ \<Rightarrow> None)"



text \<open>An identifier as \<^verbatim>\<open>uuid()\<close> makes them, and three tables for the examples.\<close>

definition example_uuid :: string where
  "example_uuid = ''123e4567-e89b-42d3-a456-426614174000''"

definition example_orders :: table where
  "example_orders =
     [example_uuid \<mapsto>
        [(''id'', JStr example_uuid), (''customerName'', JStr ''Alice''),
         (''items'', JArr [JObj [(''sku'', JStr ''x''), (''qty'', JNum 1), (''price'', JNum 10)]]),
         (''status'', JStr ''PENDING''),
         (''createdAt'', JStr ''2025-01-01T00:00:00.000Z''),
         (''updatedAt'', JStr ''2025-01-01T00:00:00.000Z'')]]"

definition example_subcent_orders :: table where
  "example_subcent_orders =
     [example_uuid \<mapsto>
        [(''id'', JStr example_uuid), (''customerName'', JStr ''Alice''),
         (''items'', JArr [priced (12 + 1 / 2 ^ 10)]),
         (''status'', JStr ''PENDING'')]]"


section \<open>Notions the claims about the listing use\<close>

text \<open>
  A resume position of the orders table: an object that carries the partition key \<^verbatim>\<open>id\<close>
  as a string.
\<close>

fun resume_position :: "jsval \<Rightarrow> bool" where
  "resume_position (JObj kvs) = (case map_of kvs ''id'' of Some (JStr k) \<Rightarrow> True | _ \<Rightarrow> False)"
| "resume_position v = False"

text \<open>
  An environment for the examples. Its store, like the real one, refuses a start key that
  is not a resume position (with an error that carries no code); its decoder reads the
  token \<^verbatim>\<open>Ingi\<close> (the base64 text of the three characters of the JSON string "x") and fails
  on every other text.
\<close>

fun example_send :: "db_request \<Rightarrow> js_error + db_result" where
  "example_send (ScanTable n None) =
     Inr \<lparr>Items = Some [[(''id'', JStr ''o1''), (''status'', JStr ''PENDING'')]],
          LastEvaluatedKey = None\<rparr>"
| "example_send (ScanTable n (Some k)) =
     (if resume_position k then Inr \<lparr>Items = Some [], LastEvaluatedKey = None\<rparr>
      else Inl (JsError None))"
| "example_send (QueryStatusIndex st n fwd None) =
     Inr \<lparr>Items = Some [], LastEvaluatedKey = None\<rparr>"
| "example_send (QueryStatusIndex st n fwd (Some k)) =
     (if resume_position k then Inr \<lparr>Items = Some [], LastEvaluatedKey = None\<rparr>
      else Inl (JsError None))"

definition example_decode :: "string \<Rightarrow> parsed" where
  "example_decode token = (if token = ''Ingi'' then Json (JStr ''x'') else SyntaxError)"

definition example_list_env :: list_env where
  "example_list_env =
     \<lparr>decode_token = example_decode, send = example_send,
      sort_createdAt = (\<lambda>ord orders. orders), encode_token = (\<lambda>k. ''next'')\<rparr>"

definition example_query :: "string option \<Rightarrow> string option \<Rightarrow> query_string" where
  "example_query ql token =
     \<lparr>q_limit = ql, q_status = None, q_sortOrder = None, q_nextToken = token\<rparr>"

section \<open>Rounding: whole numbers are kept\<close>

lemma round_even_of_int: "round_even (of_int m) = m"
  by (simp add: round_even_def)

lemma bitlen_one: "bitlen 1 = 1"
  by (simp add: bitlen_alt_def)

lemma ilog2_of_int:
  assumes "0 < n"
  shows "ilog2 (of_int n) = bitlen n - 1" and "0 \<le> bitlen n - 1"
    and "(2::int) ^ nat (bitlen n - 1) \<le> n"
proof -
  from assms have b: "1 \<le> bitlen n"
    by (auto simp: bitlen_alt_def)
  then show "0 \<le> bitlen n - 1"
    by simp
  show le: "(2::int) ^ nat (bitlen n - 1) \<le> n"
    using bitlen_bounds [OF assms] by simp
  have "(2::rat) ^ nat (bitlen n - 1) = of_int (2 ^ nat (bitlen n - 1))"
    by simp
  also have "\<dots> \<le> of_int n"
    using le by (simp only: of_int_le_iff)
  finally have "pow2 (bitlen n - 1) \<le> of_int n"
    using b by (simp add: pow2_def)
  then show "ilog2 (of_int n) = bitlen n - 1"
    by (simp add: ilog2_def bitlen_one)
qed

lemma spacing_exact:
  assumes "0 < n" and "n \<le> 2 ^ 53"
  shows "\<exists>m. of_int n / pow2 (bitlen n - 1 - 52) = of_int m"
proof -
  have e0: "0 \<le> bitlen n - 1" and le: "(2::int) ^ nat (bitlen n - 1) \<le> n"
    using ilog2_of_int [OF assms(1)] by simp_all
  from le assms(2) have p: "(2::int) ^ nat (bitlen n - 1) \<le> 2 ^ 53"
    by (rule order_trans)
  have "nat (bitlen n - 1) \<le> 53"
    by (rule power_le_imp_le_exp [OF _ p]) simp
  then have e53: "bitlen n - 1 \<le> 53"
    using e0 by simp
  show ?thesis
  proof (cases "bitlen n - 1 \<le> 52")
    case True
    then have "pow2 (bitlen n - 1 - 52) = 1 / 2 ^ nat (52 - (bitlen n - 1))"
      by (cases "bitlen n - 1 = 52") (simp_all add: pow2_def)
    then have "of_int n / pow2 (bitlen n - 1 - 52) = of_int (n * 2 ^ nat (52 - (bitlen n - 1)))"
      by simp
    then show ?thesis ..
  next
    case False
    with e53 have e: "bitlen n - 1 = 53"
      by simp
    with le assms(2) have n: "n = 2 ^ 53"
      by simp
    have "of_int n / pow2 (bitlen n - 1 - 52) = (of_int (2 ^ 52) :: rat)"
      unfolding e by (simp add: pow2_def n)
    then show ?thesis ..
  qed
qed

lemma round_double_pos_int:
  assumes "0 < n" and "n \<le> 2 ^ 53"
  shows "round_double (of_int n) = Fin (of_int n)"
proof -
  define e where "e = bitlen n - 1"
  have e0: "0 \<le> e" and il: "ilog2 (of_int n) = e"
    using ilog2_of_int [OF assms(1)] by (simp_all add: e_def)
  from spacing_exact [OF assms] obtain m where
    m: "of_int n / pow2 (e - 52) = (of_int m :: rat)"
    unfolding e_def by blast
  have q0: "pow2 (e - 52) \<noteq> 0"
    by (simp add: pow2_def)
  have y: "of_int (round_even (of_int n / pow2 (e - 52))) * pow2 (e - 52) = (of_int n :: rat)"
    unfolding m round_even_of_int using m q0 by (simp add: field_simps)
  have "(of_int n :: rat) \<le> 2 ^ 53"
    using assms(2) by (metis of_int_le_iff of_int_numeral of_int_power)
  also have "\<dots> < pow2 1024"
    by (simp add: pow2_def)
  finally have small: "\<not> pow2 1024 \<le> (of_int n :: rat)"
    by simp
  have abs: "\<bar>of_int n :: rat\<bar> = of_int n" and pos: "(0::rat) < of_int n"
    and nz: "(of_int n :: rat) \<noteq> 0"
    using assms(1) by simp_all
  have mx: "max e (- 1022) = e"
    using e0 by simp
  have "round_double (of_int n) =
        (if pow2 1024 \<le> (of_int n :: rat) then (if (0::rat) < of_int n then PosInf else NegInf)
         else Fin (sgn (of_int n) * of_int n))"
    unfolding round_double_def Let_def abs il mx y using nz by simp
  with small pos show ?thesis
    by simp
qed

lemma round_double_neg:
  "round_double (- x) =
     (case round_double x of
        Fin y \<Rightarrow> Fin (- y) | PosInf \<Rightarrow> NegInf | NegInf \<Rightarrow> PosInf | NaN \<Rightarrow> NaN)"
  by (cases "x = 0"; cases "0 < x") (auto simp: round_double_def Let_def sgn_if)

lemma round_double_of_int:
  assumes "\<bar>n\<bar> \<le> 2 ^ 53"
  shows "round_double (of_int n) = Fin (of_int n)"
proof -
  consider "n = 0" | "0 < n" | "n < 0"
    by linarith
  then show ?thesis
  proof cases
    case 1
    then show ?thesis
      by (simp add: round_double_def)
  next
    case 2
    with assms show ?thesis
      by (simp add: round_double_pos_int)
  next
    case 3
    with assms have "round_double (of_int (- n)) = Fin (of_int (- n))"
      by (intro round_double_pos_int) simp_all
    then show ?thesis
      using round_double_neg [of "of_int (- n)"] by simp
  qed
qed

lemma round_double_whole:
  assumes "r = of_int k" and "\<bar>r\<bar> \<le> 2 ^ 53"
  shows "round_double r = Fin r"
proof -
  have "(of_int \<bar>k\<bar> :: rat) \<le> of_int (2 ^ 53)"
    using assms by simp
  then have "\<bar>k\<bar> \<le> 2 ^ 53"
    by (simp only: of_int_le_iff)
  then show ?thesis
    unfolding assms(1) by (rule round_double_of_int)
qed

subsection \<open>Rounding within a binade\<close>

lemma pow2_powi: "pow2 k = 2 powi k"
  by (simp add: pow2_def power_int_def field_simps)

lemma pow2_pos: "0 < pow2 k"
  by (simp add: pow2_powi)

lemma pow2_add: "pow2 (i + j) = pow2 i * pow2 j"
  by (simp add: pow2_powi power_int_add)

lemma pow2_diff: "pow2 (i - j) = pow2 i / pow2 j"
  by (simp add: pow2_powi power_int_diff)

lemma pow2_less: "pow2 i < pow2 j \<longleftrightarrow> i < j"
proof
  assume "i < j"
  then show "pow2 i < pow2 j"
    by (simp add: pow2_powi power_int_strict_increasing)
next
  assume l: "pow2 i < pow2 j"
  show "i < j"
  proof (rule ccontr)
    assume "\<not> i < j"
    then have "j \<le> i"
      by simp
    then have "pow2 j \<le> pow2 i"
      by (simp add: pow2_powi power_int_increasing)
    with l show False
      by simp
  qed
qed

lemma bitlen_pow2_bounds:
  assumes "0 < n"
  shows "pow2 (bitlen n - 1) \<le> of_int n" and "of_int n < pow2 (bitlen n)"
proof -
  from assms have b: "1 \<le> bitlen n"
    by (auto simp: bitlen_alt_def)
  have "(2::rat) ^ nat (bitlen n - 1) = of_int (2 ^ nat (bitlen n - 1))"
    by simp
  also have "\<dots> \<le> of_int n"
    using bitlen_bounds [OF assms] by (simp only: of_int_le_iff)
  finally show "pow2 (bitlen n - 1) \<le> of_int n"
    using b by (simp add: pow2_def)
  have "(of_int n :: rat) < of_int (2 ^ nat (bitlen n))"
    using bitlen_bounds [OF assms] by (simp only: of_int_less_iff)
  also have "\<dots> = 2 ^ nat (bitlen n)"
    by simp
  finally show "of_int n < pow2 (bitlen n)"
    using b by (simp add: pow2_def)
qed

lemma ilog2_bounds:
  assumes "0 < x"
  shows "pow2 (ilog2 x) \<le> x \<and> x < pow2 (ilog2 x + 1)"
proof -
  obtain p q where pq: "quotient_of x = (p, q)"
    by force
  have q0: "0 < q"
    by (rule quotient_of_denom_pos [OF pq])
  have x: "x = of_int p / of_int q"
    by (rule quotient_of_div [OF pq])
  have p0: "0 < p"
    using assms q0 by (simp add: x zero_less_divide_iff)
  define a b where "a = bitlen p" and "b = bitlen q"
  have pa: "pow2 (a - 1) \<le> of_int p" "of_int p < pow2 a"
    using bitlen_pow2_bounds [OF p0] by (simp_all add: a_def)
  have qb: "pow2 (b - 1) \<le> of_int q" "of_int q < pow2 b"
    using bitlen_pow2_bounds [OF q0] by (simp_all add: b_def)
  have q0': "(0::rat) < of_int q"
    using q0 by simp
  have "x < pow2 a / of_int q"
    unfolding x using pa(2) q0' by (simp add: divide_strict_right_mono)
  also have "\<dots> \<le> pow2 a / pow2 (b - 1)"
    using qb(1) pow2_pos [of "b - 1"] pow2_pos [of a] by (simp add: frac_le)
  also have "\<dots> = pow2 (a - b + 1)"
    by (simp add: pow2_diff [symmetric] algebra_simps)
  finally have up: "x < pow2 (a - b + 1)" .
  have "pow2 (a - b - 1) = pow2 (a - 1) / pow2 b"
    by (simp add: pow2_diff [symmetric] algebra_simps)
  also have "\<dots> \<le> of_int p / pow2 b"
    using pa(1) pow2_pos [of b] by (simp add: divide_right_mono)
  also have "\<dots> < of_int p / of_int q"
    using qb(2) q0' p0 by (simp add: divide_strict_left_mono)
  finally have lo: "pow2 (a - b - 1) < x"
    by (simp add: x)
  have il: "ilog2 x = (if pow2 (a - b) \<le> x then a - b else a - b - 1)"
    by (simp add: ilog2_def pq a_def b_def)
  show ?thesis
  proof (cases "pow2 (a - b) \<le> x")
    case True
    with up il show ?thesis
      by simp
  next
    case False
    with lo il show ?thesis
      by simp
  qed
qed

lemma ilog2_unique:
  assumes "pow2 e \<le> x" and "x < pow2 (e + 1)"
  shows "ilog2 x = e"
proof -
  have x0: "0 < x"
    using pow2_pos [of e] assms(1) by simp
  from ilog2_bounds [OF x0] have b: "pow2 (ilog2 x) \<le> x" "x < pow2 (ilog2 x + 1)"
    by simp_all
  from assms(1) b(2) have "pow2 e < pow2 (ilog2 x + 1)"
    by simp
  then have 1: "e < ilog2 x + 1"
    by (simp only: pow2_less)
  from b(1) assms(2) have "pow2 (ilog2 x) < pow2 (e + 1)"
    by simp
  then have 2: "ilog2 x < e + 1"
    by (simp only: pow2_less)
  from 1 2 show ?thesis
    by simp
qed

lemma round_even_near:
  assumes "of_int m - 1 / 2 < x" and "x < of_int m + 1 / 2"
  shows "round_even x = m"
proof (cases "of_int m \<le> x")
  case True
  with assms have f: "\<lfloor>x\<rfloor> = m"
    by (intro floor_unique) simp_all
  with assms show ?thesis
    by (simp add: round_even_def Let_def)
next
  case False
  with assms have f: "\<lfloor>x\<rfloor> = m - 1"
    by (intro floor_unique) simp_all
  with assms show ?thesis
    by (simp add: round_even_def Let_def)
qed

lemma round_double_binade:
  assumes "pow2 e \<le> \<bar>x\<bar>" and "\<bar>x\<bar> < pow2 (e + 1)" and "- 1022 \<le> e" and "e < 1023"
    and "of_int m - 1 / 2 < \<bar>x\<bar> / pow2 (e - 52)"
    and "\<bar>x\<bar> / pow2 (e - 52) < of_int m + 1 / 2"
  shows "round_double x = Fin (sgn x * (of_int m * pow2 (e - 52)))"
proof -
  have x0: "x \<noteq> 0"
    using pow2_pos [of e] assms(1) by auto
  have il: "ilog2 \<bar>x\<bar> = e"
    using assms(1,2) by (rule ilog2_unique)
  have mx: "max e (- 1022) = e"
    using assms(3) by simp
  have re: "round_even (\<bar>x\<bar> / pow2 (e - 52)) = m"
    using assms(5,6) by (rule round_even_near)
  have "of_int m < \<bar>x\<bar> / pow2 (e - 52) + 1 / 2"
    using assms(5) by simp
  also have "\<dots> < pow2 (e + 1) / pow2 (e - 52) + 1 / 2"
    using assms(2) pow2_pos [of "e - 52"] by (simp add: divide_strict_right_mono)
  also have "\<dots> = pow2 53 + 1 / 2"
    by (simp add: pow2_diff [symmetric])
  finally have "(of_int m :: rat) < of_int (2 ^ 53) + 1 / 2"
    by (simp add: pow2_def)
  then have "m \<le> 2 ^ 53"
    by linarith
  then have "(of_int m :: rat) \<le> of_int (2 ^ 53)"
    by (simp only: of_int_le_iff)
  then have "(of_int m :: rat) \<le> pow2 53"
    by (simp add: pow2_def)
  then have "of_int m * pow2 (e - 52) \<le> pow2 53 * pow2 (e - 52)"
    using pow2_pos [of "e - 52"] by (simp add: mult_right_mono)
  also have "\<dots> = pow2 (e + 1)"
    by (simp add: pow2_add [symmetric] add.commute)
  also have "\<dots> < pow2 1024"
    using assms(4) by (simp only: pow2_less)
  finally have small: "\<not> pow2 1024 \<le> of_int m * pow2 (e - 52)"
    by simp
  show ?thesis
    unfolding round_double_def Let_def il mx re using x0 small by simp
qed

lemma round_double_zero: "round_double 0 = Fin 0"
  by (simp add: round_double_def)

subsection \<open>The roundings of the examples\<close>

lemma round_down_example:
  "round_double (1 / 2 ^ 44) = Fin (1 / 2 ^ 44)"
  "round_double (10000 + 1 / 2 ^ 44) = Fin 10000"
  using round_double_binade [of "- 44" "1 / 2 ^ 44" "2 ^ 52"]
    round_double_binade [of 13 "10000 + 1 / 2 ^ 44" "10000 * 2 ^ 39"]
  by (simp_all add: pow2_def)

lemma round_up_example:
  "round_double (5 / 2 ^ 42) = Fin (5 / 2 ^ 42)"
  "round_double (1808 - 10 / 2 ^ 42) = Fin (1808 - 10 / 2 ^ 42)"
  "round_double (8192 + 5 / 2 ^ 42) = Fin (8192 + 1 / 2 ^ 39)"
  "round_double (8192 + 1 / 2 ^ 39 + 5 / 2 ^ 42) = Fin (8192 + 1 / 2 ^ 38)"
  "round_double (8192 + 1 / 2 ^ 38 + (1808 - 10 / 2 ^ 42)) = Fin (10000 + 1 / 2 ^ 39)"
  using round_double_binade [of "- 40" "5 / 2 ^ 42" "5 * 2 ^ 50"]
    round_double_binade [of 10 "1808 - 10 / 2 ^ 42" "1808 * 2 ^ 42 - 10"]
    round_double_binade [of 13 "8192 + 5 / 2 ^ 42" "8192 * 2 ^ 39 + 1"]
    round_double_binade [of 13 "8192 + 1 / 2 ^ 39 + 5 / 2 ^ 42" "8192 * 2 ^ 39 + 2"]
    round_double_binade [of 13 "8192 + 1 / 2 ^ 38 + (1808 - 10 / 2 ^ 42)" "10000 * 2 ^ 39 + 1"]
  by (simp_all add: pow2_def)

lemma round_whole_example:
  "round_double 12 = Fin 12"
  "round_double 8192 = Fin 8192"
  "round_double 10000 = Fin 10000"
  using round_double_of_int [of 12] round_double_of_int [of 8192] round_double_of_int [of 10000]
  by simp_all

lemma round_subcent_example:
  "round_double (12 + 1 / 2 ^ 10) = Fin (12 + 1 / 2 ^ 10)"
  using round_double_binade [of 3 "12 + 1 / 2 ^ 10" "12 * 2 ^ 49 + 2 ^ 39"]
  by (simp add: pow2_def)

section \<open>Properties of the totals callback\<close>

lemma whole_field:
  assumes "whole_or_absent v"
  shows "to_number L (or0 v) = Inr (Fin (field_or0 v))"
    and "field_or0 v = of_int \<lfloor>field_or0 v\<rfloor>"
  using assms by (cases v rule: whole_or_absent.cases; simp add: to_number_def)+

lemma item_value_whole:
  assumes "whole_item x" and "line_size x \<le> 2 ^ 53"
  shows "item_value L x = Inr (Fin (field_or0 (jget x ''qty'') * field_or0 (jget x ''price'')))"
proof -
  let ?p = "field_or0 (jget x ''price'')" and ?q = "field_or0 (jget x ''qty'')"
  from assms(1) have p: "whole_or_absent (jget x ''price'')" and q: "whole_or_absent (jget x ''qty'')"
    by (simp_all add: whole_item_def)
  have "?p * ?q = of_int \<lfloor>?p\<rfloor> * of_int \<lfloor>?q\<rfloor>"
    using whole_field(2) [OF p] whole_field(2) [OF q] by simp
  then have w: "?p * ?q = of_int (\<lfloor>?p\<rfloor> * \<lfloor>?q\<rfloor>)"
    by simp
  have b: "\<bar>?p * ?q\<bar> \<le> 2 ^ 53"
    using assms(2) by (simp add: line_size_def mult.commute)
  have "round_double (?p * ?q) = Fin (?p * ?q)"
    using w b by (rule round_double_whole)
  then show ?thesis
    by (simp add: item_value_def whole_field(1) [OF p] whole_field(1) [OF q] mult.commute)
qed

lemma line_size_whole:
  assumes "whole_item x"
  shows "\<exists>k. field_or0 (jget x ''qty'') * field_or0 (jget x ''price'') = of_int k"
proof -
  let ?p = "field_or0 (jget x ''price'')" and ?q = "field_or0 (jget x ''qty'')"
  from assms have p: "whole_or_absent (jget x ''price'')" and q: "whole_or_absent (jget x ''qty'')"
    by (simp_all add: whole_item_def)
  have "?q * ?p = of_int \<lfloor>?q\<rfloor> * of_int \<lfloor>?p\<rfloor>"
    using whole_field(2) [OF p] whole_field(2) [OF q] by simp
  then have "?q * ?p = of_int (\<lfloor>?q\<rfloor> * \<lfloor>?p\<rfloor>)"
    by simp
  then show ?thesis ..
qed

lemma reduce_total_Cons:
  "x \<noteq> JNull \<Longrightarrow>
   reduce_total L acc (x # xs) =
     (case item_value L x of
        Inl e \<Rightarrow> Inl e
      | Inr v \<Rightarrow> reduce_total L (js_plus acc v) xs)"
  by (cases x) simp_all

lemma line_size_nonneg: "0 \<le> (\<Sum>x\<leftarrow>xs. line_size x)"
  by (induction xs) (simp_all add: line_size_def)

lemma reduce_total_whole_from:
  assumes "list_all whole_item xs"
    and "\<bar>of_int k\<bar> + (\<Sum>x\<leftarrow>xs. line_size x) \<le> 2 ^ 53"
  shows "reduce_total L (Fin (of_int k)) xs = Inr (Fin (of_int k + spec_total xs))"
  using assms
proof (induction xs arbitrary: k)
  case Nil
  then show ?case
    by (simp add: spec_total_def)
next
  case (Cons x xs)
  let ?v = "field_or0 (jget x ''qty'') * field_or0 (jget x ''price'')"
  from Cons.prems(1) have wx: "whole_item x" and rest: "list_all whole_item xs"
    by simp_all
  from wx have nn: "x \<noteq> JNull"
    by (simp add: whole_item_def)
  have r0: "0 \<le> (\<Sum>y\<leftarrow>xs. line_size y)"
    by (rule line_size_nonneg)
  have l0: "0 \<le> line_size x"
    by (simp add: line_size_def)
  from Cons.prems(2) have sz: "\<bar>of_int k :: rat\<bar> + line_size x + (\<Sum>y\<leftarrow>xs. line_size y) \<le> 2 ^ 53"
    by (simp add: add.assoc)
  from sz r0 have lx: "line_size x \<le> 2 ^ 53"
    by simp
  from line_size_whole [OF wx] obtain m where m: "?v = of_int m" ..
  have sum: "of_int k + ?v = (of_int (k + m) :: rat)"
    by (simp add: m)
  have "\<bar>of_int k + ?v\<bar> \<le> \<bar>of_int k :: rat\<bar> + line_size x"
    unfolding line_size_def by (rule abs_triangle_ineq)
  then have b: "\<bar>of_int (k + m) :: rat\<bar> + (\<Sum>y\<leftarrow>xs. line_size y) \<le> 2 ^ 53"
    using sz unfolding sum by simp
  then have b1: "\<bar>of_int k + ?v\<bar> \<le> 2 ^ 53"
    using r0 unfolding sum by simp
  have plus: "js_plus (Fin (of_int k)) (Fin ?v) = Fin (of_int (k + m))"
    using round_double_whole [OF sum b1] by (simp add: sum)
  have step: "reduce_total L (Fin (of_int k)) (x # xs) =
              reduce_total L (Fin (of_int (k + m))) xs"
    unfolding reduce_total_Cons [OF nn] item_value_whole [OF wx lx]
    using plus by simp
  show ?case
    unfolding step Cons.IH [OF rest b]
    by (simp add: spec_total_def m)
qed

lemma reduce_total_whole:
  assumes "whole_order xs"
  shows "reduce_total L (Fin 0) xs = Inr (Fin (spec_total xs))"
  using assms reduce_total_whole_from [of xs 0 L] by (simp add: whole_order_def)

lemma length_gt10_array:
  "length_gt10 L (Some (JArr xs)) = Inr (10 < length xs)"
proof -
  have "(10::rat) < of_nat (length xs) \<longleftrightarrow> 10 < length xs"
    by (metis of_nat_less_iff of_nat_numeral)
  then show ?thesis
    by (simp add: to_number_def)
qed

lemma js_gt_num_or0: "js_gt (num_or0 (Some t)) (Fin 10000) \<longleftrightarrow> js_gt t (Fin 10000)"
  by (cases t) auto

lemma process_array:
  assumes "jget detail ''items'' = Some (JArr xs)"
    and "reduce_total L (Fin 0) xs = Inr t"
  shows "processOrderCreated L detail =
         Inr (if js_gt t (Fin 10000)
              then (''PENDING_APPROVAL'', ''High-value order requires approval'')
              else if 10 < length xs
              then (''PENDING_REVIEW'', ''Large order requires manual review'')
              else (''CONFIRMED'', ''Order processed successfully''))"
  using assms
  by (simp add: processOrderCreated_def length_gt10_array js_gt_num_or0 Let_def
        del: num_or0.simps length_gt10.simps)

lemma process_whole:
  assumes "jget detail ''items'' = Some (JArr xs)"
    and "whole_order xs"
  shows "processOrderCreated L detail =
         Inr (if 10000 < spec_total xs
              then (''PENDING_APPROVAL'', ''High-value order requires approval'')
              else if 10 < length xs
              then (''PENDING_REVIEW'', ''Large order requires manual review'')
              else (''CONFIRMED'', ''Order processed successfully''))"
  using process_array [OF assms(1) reduce_total_whole [OF assms(2)]] by simp


section \<open>The processor's business rule\<close>

lemma item_value_priced: "p \<noteq> 0 \<Longrightarrow> item_value L (priced p) = Inr (round_double p)"
  by (simp add: item_value_def priced_def to_number_def)

lemma priced_fields:
  "priced p \<noteq> JNull"
  "field_or0 (jget (priced p) ''qty'') = 1"
  "field_or0 (jget (priced p) ''price'') = p"
  by (simp_all add: priced_def)

lemma example_rounded_down_total:
  "reduce_total L (Fin 0) example_rounded_down = Inr (Fin 10000)"
  using round_down_example round_whole_example
  by (simp add: example_rounded_down_def reduce_total_Cons priced_fields item_value_priced)

lemma example_rounded_up_total:
  "reduce_total L (Fin 0) example_rounded_up = Inr (Fin (10000 + 1 / 2 ^ 39))"
  using round_up_example round_whole_example
  by (simp add: example_rounded_up_def reduce_total_Cons priced_fields item_value_priced)

lemma whole_order_replicate:
  assumes "whole_item x" and "of_nat n * line_size x \<le> 2 ^ 53"
  shows "whole_order (replicate n x)"
  using assms by (simp add: whole_order_def list_all_iff sum_list_replicate)

lemma spec_total_replicate:
  "spec_total (replicate n x) =
     of_nat n * (field_or0 (jget x ''qty'') * field_or0 (jget x ''price''))"
  by (simp add: spec_total_def sum_list_replicate)

text \<open>
  Claim C1. For every OrderCreated event whose items have a total value strictly above
  10000, the processor chooses the status PENDING_APPROVAL with the note "High-value order
  requires approval", whatever the number of items: the value check comes after the count
  check and overrides it. The total value is the one the processor computes, the running
  sum in double arithmetic of price times qty; for an order in whole numbers that is the
  exact sum of qty times price, a missing price or qty counting as 0.
\<close>

theorem high_value_needs_approval:
  assumes "jget detail ''items'' = Some (JArr xs)"
  shows "(reduce_total L (Fin 0) xs = Inr t \<and> js_gt t (Fin 10000) \<longrightarrow>
            processOrderCreated L detail =
            Inr (''PENDING_APPROVAL'', ''High-value order requires approval''))
       \<and> (whole_order xs \<and> 10000 < spec_total xs \<longrightarrow>
            processOrderCreated L detail =
            Inr (''PENDING_APPROVAL'', ''High-value order requires approval''))"
proof (intro conjI impI)
  assume "reduce_total L (Fin 0) xs = Inr t \<and> js_gt t (Fin 10000)"
  then show "processOrderCreated L detail =
             Inr (''PENDING_APPROVAL'', ''High-value order requires approval'')"
    using process_array [OF assms, of L t] by simp
next
  assume "whole_order xs \<and> 10000 < spec_total xs"
  then show "processOrderCreated L detail =
             Inr (''PENDING_APPROVAL'', ''High-value order requires approval'')"
    using process_whole [OF assms, of L] by simp
qed

theorem high_value_needs_approval_witness:
  "jget (JObj [(''id'', JStr ''o1''),
               (''items'', JArr (replicate 11 (JObj [(''sku'', JStr ''x''), (''qty'', JNum 1),
                                                     (''price'', JNum 1000)])))]) ''items''
     = Some (JArr (replicate 11 (JObj [(''sku'', JStr ''x''), (''qty'', JNum 1),
                                       (''price'', JNum 1000)])))
   \<and> reduce_total example_lib (Fin 0)
        (replicate 11 (JObj [(''sku'', JStr ''x''), (''qty'', JNum 1), (''price'', JNum 1000)]))
     = Inr (Fin 11000)
   \<and> js_gt (Fin 11000) (Fin 10000)
   \<and> whole_order (replicate 11 (JObj [(''sku'', JStr ''x''), (''qty'', JNum 1),
                                       (''price'', JNum 1000)]))
   \<and> 10000 < spec_total (replicate 11 (JObj [(''sku'', JStr ''x''), (''qty'', JNum 1),
                                             (''price'', JNum 1000)]))
   \<and> 10 < length (replicate 11 (JObj [(''sku'', JStr ''x''), (''qty'', JNum 1),
                                      (''price'', JNum 1000)]))
   \<and> processOrderCreated example_lib
        (JObj [(''id'', JStr ''o1''),
               (''items'', JArr (replicate 11 (JObj [(''sku'', JStr ''x''), (''qty'', JNum 1),
                                                     (''price'', JNum 1000)])))])
     = Inr (''PENDING_APPROVAL'', ''High-value order requires approval'')"
proof -
  let ?item = "JObj [(''sku'', JStr ''x''), (''qty'', JNum 1), (''price'', JNum 1000)]"
  let ?xs = "replicate 11 ?item"
  let ?d = "JObj [(''id'', JStr ''o1''), (''items'', JArr ?xs)]"
  have items: "jget ?d ''items'' = Some (JArr ?xs)"
    by simp
  have whole: "whole_order ?xs"
    by (rule whole_order_replicate) (simp_all add: whole_item_def line_size_def)
  have total: "spec_total ?xs = 11000"
    by (simp add: spec_total_replicate)
  have sum: "reduce_total example_lib (Fin 0) ?xs = Inr (Fin 11000)"
    using reduce_total_whole [OF whole, of example_lib] by (simp only: total)
  have gt: "js_gt (Fin 11000) (Fin 10000)"
    by simp
  from high_value_needs_approval [OF items, of example_lib "Fin 11000"] sum gt
  have "processOrderCreated example_lib ?d =
        Inr (''PENDING_APPROVAL'', ''High-value order requires approval'')"
    by blast
  with items sum gt whole total show ?thesis
    by simp
qed

text \<open>
  With the total taken as the exact sum the claim fails. One item at 10000 and one at
  \<open>2\<^sup>-\<^sup>4\<^sup>4\<close> add up to more than 10000; the running sum is rounded to 10000 and the order
  is confirmed.
\<close>

theorem exact_total_above_limit_counterexample:
  "10000 < spec_total example_rounded_down
   \<and> processOrderCreated example_lib
       (JObj [(''id'', JStr ''o1''), (''items'', JArr example_rounded_down)])
     = Inr (''CONFIRMED'', ''Order processed successfully'')"
proof -
  let ?d = "JObj [(''id'', JStr ''o1''), (''items'', JArr example_rounded_down)]"
  have items: "jget ?d ''items'' = Some (JArr example_rounded_down)"
    by simp
  have "processOrderCreated example_lib ?d = Inr (''CONFIRMED'', ''Order processed successfully'')"
    using process_array [OF items example_rounded_down_total, of example_lib]
    by (simp add: example_rounded_down_def)
  moreover have "10000 < spec_total example_rounded_down"
    by (simp add: spec_total_def example_rounded_down_def priced_fields)
  ultimately show ?thesis
    by simp
qed

text \<open>
  Claim C2. For every OrderCreated event with more than 10 items and a total value of at
  most 10000 the chosen status is PENDING_REVIEW, and for every event with at most 10
  items and a total value of at most 10000 it is CONFIRMED. The total value is the one the
  processor computes, and the count rule decides whenever that total is not above 10000;
  for an order in whole numbers it is the exact sum of qty times price.
\<close>

theorem count_rule_below_value_limit:
  assumes "jget detail ''items'' = Some (JArr xs)"
  shows "(reduce_total L (Fin 0) xs = Inr t \<and> \<not> js_gt t (Fin 10000) \<longrightarrow>
            (10 < length xs \<longrightarrow>
               processOrderCreated L detail =
               Inr (''PENDING_REVIEW'', ''Large order requires manual review''))
          \<and> (length xs \<le> 10 \<longrightarrow>
               processOrderCreated L detail =
               Inr (''CONFIRMED'', ''Order processed successfully'')))
       \<and> (whole_order xs \<and> spec_total xs \<le> 10000 \<longrightarrow>
            (10 < length xs \<longrightarrow>
               processOrderCreated L detail =
               Inr (''PENDING_REVIEW'', ''Large order requires manual review''))
          \<and> (length xs \<le> 10 \<longrightarrow>
               processOrderCreated L detail =
               Inr (''CONFIRMED'', ''Order processed successfully'')))"
proof (intro conjI impI)
  assume "reduce_total L (Fin 0) xs = Inr t \<and> \<not> js_gt t (Fin 10000)" and "10 < length xs"
  then show "processOrderCreated L detail =
             Inr (''PENDING_REVIEW'', ''Large order requires manual review'')"
    using process_array [OF assms, of L t] by simp
next
  assume "reduce_total L (Fin 0) xs = Inr t \<and> \<not> js_gt t (Fin 10000)" and "length xs \<le> 10"
  then show "processOrderCreated L detail =
             Inr (''CONFIRMED'', ''Order processed successfully'')"
    using process_array [OF assms, of L t] by simp
next
  assume "whole_order xs \<and> spec_total xs \<le> 10000" and "10 < length xs"
  then show "processOrderCreated L detail =
             Inr (''PENDING_REVIEW'', ''Large order requires manual review'')"
    using process_whole [OF assms, of L] by simp
next
  assume "whole_order xs \<and> spec_total xs \<le> 10000" and "length xs \<le> 10"
  then show "processOrderCreated L detail =
             Inr (''CONFIRMED'', ''Order processed successfully'')"
    using process_whole [OF assms, of L] by simp
qed

theorem count_rule_below_value_limit_witness:
  "whole_order (replicate 11 (JObj [(''sku'', JStr ''x''), (''qty'', JNum 1), (''price'', JNum 1)]))
   \<and> spec_total (replicate 11 (JObj [(''sku'', JStr ''x''), (''qty'', JNum 1),
                                      (''price'', JNum 1)])) \<le> 10000
   \<and> reduce_total example_lib (Fin 0)
        (replicate 11 (JObj [(''sku'', JStr ''x''), (''qty'', JNum 1), (''price'', JNum 1)]))
     = Inr (Fin 11)
   \<and> processOrderCreated example_lib
       (JObj [(''id'', JStr ''o1''),
              (''items'', JArr (replicate 11 (JObj [(''sku'', JStr ''x''), (''qty'', JNum 1),
                                                    (''price'', JNum 1)])))])
     = Inr (''PENDING_REVIEW'', ''Large order requires manual review'')
   \<and> whole_order [JObj [(''sku'', JStr ''x''), (''qty'', JNum 1), (''price'', JNum 10)]]
   \<and> spec_total [JObj [(''sku'', JStr ''x''), (''qty'', JNum 1), (''price'', JNum 10)]] \<le> 10000
   \<and> reduce_total example_lib (Fin 0)
        [JObj [(''sku'', JStr ''x''), (''qty'', JNum 1), (''price'', JNum 10)]]
     = Inr (Fin 10)
   \<and> processOrderCreated example_lib
       (JObj [(''id'', JStr ''o2''),
              (''items'', JArr [JObj [(''sku'', JStr ''x''), (''qty'', JNum 1),
                                      (''price'', JNum 10)]])])
     = Inr (''CONFIRMED'', ''Order processed successfully'')"
proof -
  let ?a = "JObj [(''sku'', JStr ''x''), (''qty'', JNum 1), (''price'', JNum 1)]"
  let ?b = "JObj [(''sku'', JStr ''x''), (''qty'', JNum 1), (''price'', JNum 10)]"
  let ?d1 = "JObj [(''id'', JStr ''o1''), (''items'', JArr (replicate 11 ?a))]"
  let ?d2 = "JObj [(''id'', JStr ''o2''), (''items'', JArr [?b])]"
  have i1: "jget ?d1 ''items'' = Some (JArr (replicate 11 ?a))"
    by simp
  have w1: "whole_order (replicate 11 ?a)"
    by (rule whole_order_replicate) (simp_all add: whole_item_def line_size_def)
  have t1: "spec_total (replicate 11 ?a) = 11"
    by (simp add: spec_total_replicate)
  have s1: "reduce_total example_lib (Fin 0) (replicate 11 ?a) = Inr (Fin 11)"
    using reduce_total_whole [OF w1, of example_lib] by (simp only: t1)
  have i2: "jget ?d2 ''items'' = Some (JArr [?b])"
    by simp
  have w2: "whole_order [?b]"
    by (simp add: whole_order_def whole_item_def line_size_def)
  have t2: "spec_total [?b] = 10"
    by (simp add: spec_total_def)
  have s2: "reduce_total example_lib (Fin 0) [?b] = Inr (Fin 10)"
    using reduce_total_whole [OF w2, of example_lib] by (simp only: t2)
  have n1: "\<not> js_gt (Fin 11) (Fin 10000)" and n2: "\<not> js_gt (Fin 10) (Fin 10000)"
    by simp_all
  have l1: "10 < length (replicate 11 ?a)" and l2: "length [?b] \<le> 10"
    by simp_all
  from count_rule_below_value_limit [OF i1, of example_lib "Fin 11"] s1 n1 l1
  have r1: "processOrderCreated example_lib ?d1 =
            Inr (''PENDING_REVIEW'', ''Large order requires manual review'')"
    by blast
  from count_rule_below_value_limit [OF i2, of example_lib "Fin 10"] s2 n2 l2
  have r2: "processOrderCreated example_lib ?d2 =
            Inr (''CONFIRMED'', ''Order processed successfully'')"
    by blast
  from w1 t1 s1 r1 w2 t2 s2 r2 show ?thesis
    by simp
qed

text \<open>
  With the total taken as the exact sum the claim fails. Four items at 8192,
  \<open>5 / 2\<^sup>4\<^sup>2\<close>, \<open>5 / 2\<^sup>4\<^sup>2\<close> and \<open>1808 - 10 / 2\<^sup>4\<^sup>2\<close> add up to 10000; the running sum is rounded
  up twice and ends above 10000, so the order waits for approval.
\<close>

theorem exact_total_at_limit_counterexample:
  "spec_total example_rounded_up \<le> 10000
   \<and> length example_rounded_up \<le> 10
   \<and> processOrderCreated example_lib
       (JObj [(''id'', JStr ''o1''), (''items'', JArr example_rounded_up)])
     = Inr (''PENDING_APPROVAL'', ''High-value order requires approval'')"
proof -
  let ?d = "JObj [(''id'', JStr ''o1''), (''items'', JArr example_rounded_up)]"
  have items: "jget ?d ''items'' = Some (JArr example_rounded_up)"
    by simp
  have "processOrderCreated example_lib ?d =
        Inr (''PENDING_APPROVAL'', ''High-value order requires approval'')"
    using process_array [OF items example_rounded_up_total, of example_lib]
    by simp
  moreover have "spec_total example_rounded_up \<le> 10000"
    by (simp add: spec_total_def example_rounded_up_def priced_fields)
  moreover have "length example_rounded_up \<le> 10"
    by (simp add: example_rounded_up_def)
  ultimately show ?thesis
    by simp
qed


section \<open>The batch handler: each message on its own\<close>


lemma update_item_fails_iff:
  "(\<exists>e. update_item L tbl key sets = Inl e) \<longleftrightarrow> (\<forall>k. key = JStr k \<longrightarrow> k \<notin> dom tbl)"
  by (auto simp: update_item_def Let_def split: jsval.splits option.splits)

lemma process_message_Json:
  "v \<noteq> JNull \<Longrightarrow>
   process_message L now fault tbl (Json v) =
     (if \<not> truthy (jget v ''type'') \<or> \<not> truthy (jget v ''detail'')
      then (Failed InvalidStructure, tbl)
      else if jget v ''type'' = Some (JStr ''OrderCreated'')
      then
        (case jget v ''detail'' of
           None \<Rightarrow> (Failed InvalidStructure, tbl)
         | Some detail \<Rightarrow>
             (case jget detail ''id'' of
                None \<Rightarrow> (Failed MissingOrderId, tbl)
              | Some orderId \<Rightarrow>
                  if \<not> truthy (Some orderId) then (Failed MissingOrderId, tbl)
                  else
                    (case processOrderCreated L detail of
                       Inl e \<Rightarrow> (Failed (classify e), tbl)
                     | Inr (newStatus, processingNotes) \<Rightarrow>
                         (case fault of
                            Some e \<Rightarrow> (Failed (classify e), tbl)
                          | None \<Rightarrow>
                              (case update_item L tbl orderId
                                      [(''status'', JStr newStatus),
                                       (''updatedAt'', JStr now),
                                       (''processingNotes'', JStr processingNotes)] of
                                 Inl e \<Rightarrow> (Failed (classify e), tbl)
                               | Inr (tbl', updated) \<Rightarrow> (Processed, tbl'))))))
      else (Failed UnknownType, tbl))"
  by (cases v) simp_all




lemma update_item_outcome:
  "dom t1 = dom t2 \<Longrightarrow> isl (update_item L t1 key sets) = isl (update_item L t2 key sets)"
proof (cases key)
  case (JStr k)
  assume d: "dom t1 = dom t2"
  have "(t1 k = None) = (t2 k = None)"
    using d by (metis domIff)
  with JStr show ?thesis
    by (auto simp: update_item_def Let_def split: option.splits)
qed (simp_all add: update_item_def)







lemma example_item_decision:
  assumes "jget detail ''items'' = Some (JArr [example_item])"
  shows "processOrderCreated L detail = Inr (''CONFIRMED'', ''Order processed successfully'')"
proof -
  have w: "whole_order [example_item]"
    by (simp add: whole_order_def whole_item_def line_size_def example_item_def)
  have t: "spec_total [example_item] = 10"
    by (simp add: spec_total_def example_item_def)
  show ?thesis
    using process_whole [OF assms w, of L] by (simp add: t)
qed




section \<open>Events without prices\<close>

lemma js_times_zero_left: "zeroish (js_times (Fin 0) y)"
  by (cases y) (simp_all add: zeroish_def round_double_zero)

lemma js_times_zero_right: "zeroish (js_times x (Fin 0))"
  by (cases x) (simp_all add: zeroish_def round_double_zero)

lemma js_plus_zeroish: "zeroish a \<Longrightarrow> zeroish b \<Longrightarrow> zeroish (js_plus a b)"
  by (auto simp: zeroish_def round_double_zero)

lemma item_value_lacking:
  assumes "lacks_field x"
  shows "\<exists>v. item_value L x = Inr v \<and> zeroish v"
proof -
  from assms consider
      "jget x ''qty'' = None" and "\<not> text_throws (or0 (jget x ''price''))"
    | "jget x ''price'' = None" and "\<not> text_throws (or0 (jget x ''qty''))"
    by (auto simp: lacks_field_def)
  then show ?thesis
  proof cases
    case 1
    then show ?thesis
      by (simp add: item_value_def to_number_def js_times_zero_right)
  next
    case 2
    then show ?thesis
      by (simp add: item_value_def to_number_def js_times_zero_left)
  qed
qed

lemma reduce_total_lacking:
  "zeroish acc \<Longrightarrow> list_all lacks_field xs \<Longrightarrow>
   \<exists>t. reduce_total L acc xs = Inr t \<and> zeroish t"
proof (induction xs arbitrary: acc)
  case Nil
  then show ?case by simp
next
  case (Cons x xs)
  then have lx: "lacks_field x" and rest: "list_all lacks_field xs"
    by simp_all
  from lx have nn: "x \<noteq> JNull"
    by (simp add: lacks_field_def)
  from item_value_lacking [OF lx, of L] obtain v where
    v: "item_value L x = Inr v" and zv: "zeroish v"
    by blast
  have step: "reduce_total L acc (x # xs) = reduce_total L (js_plus acc v) xs"
    by (simp add: reduce_total_Cons [OF nn] v)
  have "zeroish (js_plus acc v)"
    using Cons.prems(1) zv by (rule js_plus_zeroish)
  from Cons.IH [OF this rest] step show ?case
    by simp
qed

lemma process_unpriced:
  assumes "unpriced_items (jget detail ''items'')"
  shows "processOrderCreated L detail = Inr (''CONFIRMED'', ''Order processed successfully'')"
proof (cases "jget detail ''items''")
  case None
  then show ?thesis
    by (simp add: processOrderCreated_def)
next
  case (Some v)
  show ?thesis
  proof (cases v)
    case JNull
    with Some show ?thesis
      by (simp add: processOrderCreated_def)
  next
    case (JArr xs)
    with Some assms have len: "length xs \<le> 10" and all: "list_all lacks_field xs"
      by (simp_all add: unpriced_items_def)
    have "zeroish (Fin 0)"
      by (simp add: zeroish_def)
    from reduce_total_lacking [OF this all, of L]
    obtain t where t: "reduce_total L (Fin 0) xs = Inr t" and z: "zeroish t"
      by blast
    from z have "\<not> js_gt t (Fin 10000)"
      by (auto simp: zeroish_def)
    with len show ?thesis
      using process_array [OF _ t, of detail] Some JArr by simp
  qed (use Some assms in \<open>simp_all add: unpriced_items_def\<close>)
qed

lemma jget_id_truthy: "jget v ''id'' = Some x \<Longrightarrow> truthy (Some v)"
  by (cases v) (simp_all split: if_splits)

lemma jget_not_null: "jget v k = Some x \<Longrightarrow> v \<noteq> JNull"
  by (cases v) simp_all

lemma process_message_unpriced:
  assumes "jget messageBody ''type'' = Some (JStr ''OrderCreated'')"
    and "jget messageBody ''detail'' = Some detail"
    and "jget detail ''id'' = Some (JStr k)"
    and "k \<noteq> []"
    and "tbl k = Some old"
    and "unpriced_items (jget detail ''items'')"
  shows "process_message L now None tbl (Json messageBody) =
           (Processed,
            tbl(k \<mapsto> obj_set ''processingNotes'' (JStr ''Order processed successfully'')
                       (obj_set ''updatedAt'' (JStr now)
                          (obj_set ''status'' (JStr ''CONFIRMED'') old))))"
proof -
  have nn: "messageBody \<noteq> JNull"
    using assms(1) by (rule jget_not_null)
  have td: "truthy (Some detail)"
    using assms(3) by (rule jget_id_truthy)
  have p: "processOrderCreated L detail = Inr (''CONFIRMED'', ''Order processed successfully'')"
    using assms(6) by (rule process_unpriced)
  show ?thesis
    using assms(1-5) td p
    by (simp add: process_message_Json [OF nn] update_item_def Let_def)
qed


lemma map_of_obj_set:
  "map_of (obj_set k v kvs) k' = (if k' = k then Some v else map_of kvs k')"
  by (induction kvs) auto

text \<open>
  Claim C10, as the code has it. For every OrderCreated event that carries the identifier
  of an existing order and whose \<^verbatim>\<open>items\<close> is missing, empty, or a list of at most ten
  entries each lacking qty or price (the other of the two absent or a value that converts
  to a number), the processor, when its store update meets no fault, does not fail and checks nothing but the existence of the order: the total
  counts as 0, and the order's status becomes CONFIRMED whatever it was before, with the
  note and the update time written and every other order left alone.
\<close>

theorem unpriced_event_is_confirmed:
  assumes "jget messageBody ''type'' = Some (JStr ''OrderCreated'')"
    and "jget messageBody ''detail'' = Some detail"
    and "jget detail ''id'' = Some (JStr k)"
    and "k \<noteq> []"
    and "tbl k = Some old"
    and "unpriced_items (jget detail ''items'')"
  shows "fst (process_message L now None tbl (Json messageBody)) = Processed
       \<and> map_option (\<lambda>a. (map_of a ''status'', map_of a ''processingNotes'', map_of a ''updatedAt''))
           (snd (process_message L now None tbl (Json messageBody)) k)
         = Some (Some (JStr ''CONFIRMED''), Some (JStr ''Order processed successfully''), Some (JStr now))
       \<and> (\<forall>k'. k' \<noteq> k \<longrightarrow> snd (process_message L now None tbl (Json messageBody)) k' = tbl k')"
proof -
  have "process_message L now None tbl (Json messageBody) =
           (Processed,
            tbl(k \<mapsto> obj_set ''processingNotes'' (JStr ''Order processed successfully'')
                       (obj_set ''updatedAt'' (JStr now)
                          (obj_set ''status'' (JStr ''CONFIRMED'') old))))"
    using assms by (rule process_message_unpriced)
  then show ?thesis
    by (simp add: map_of_obj_set)
qed

theorem unpriced_event_is_confirmed_witness:
  "unpriced_items (jget (JObj [(''id'', JStr ''o3'')]) ''items'')
   \<and> fst (process_message example_lib ''2025-01-01T00:00:01.000Z'' None example_table
          (Json (JObj [(''type'', JStr ''OrderCreated''),
                       (''detail'', JObj [(''id'', JStr ''o3'')])])))
     = Processed
   \<and> map_option (\<lambda>a. map_of a ''status'')
        (snd (process_message example_lib ''2025-01-01T00:00:01.000Z'' None example_table
                (Json (JObj [(''type'', JStr ''OrderCreated''),
                             (''detail'', JObj [(''id'', JStr ''o3'')])]))) ''o3'')
     = Some (Some (JStr ''CONFIRMED''))
   \<and> unpriced_items
        (jget (JObj [(''id'', JStr ''o3''),
                     (''items'', JArr [JObj [(''sku'', JStr ''x''), (''price'', JNum 20000)],
                                       JObj [(''qty'', JStr ''two'')]])]) ''items'')
   \<and> fst (process_message example_lib ''2025-01-01T00:00:01.000Z'' None example_table
          (Json (JObj [(''type'', JStr ''OrderCreated''),
                       (''detail'',
                        JObj [(''id'', JStr ''o3''),
                              (''items'', JArr [JObj [(''sku'', JStr ''x''), (''price'', JNum 20000)],
                                                JObj [(''qty'', JStr ''two'')]])])])))
     = Processed
   \<and> map_option (\<lambda>a. map_of a ''status'')
        (snd (process_message example_lib ''2025-01-01T00:00:01.000Z'' None example_table
                (Json (JObj [(''type'', JStr ''OrderCreated''),
                             (''detail'',
                              JObj [(''id'', JStr ''o3''),
                                    (''items'', JArr [JObj [(''sku'', JStr ''x''),
                                                            (''price'', JNum 20000)],
                                                      JObj [(''qty'', JStr ''two'')]])])])))
           ''o3'')
     = Some (Some (JStr ''CONFIRMED''))
   \<and> map_option (\<lambda>a. map_of a ''status'') (example_table ''o3'')
     = Some (Some (JStr ''CANCELLED''))"
proof -
  let ?now = "''2025-01-01T00:00:01.000Z''"
  let ?d = "JObj [(''id'', JStr ''o3'')]"
  let ?m = "JObj [(''type'', JStr ''OrderCreated''), (''detail'', ?d)]"
  let ?d' = "JObj [(''id'', JStr ''o3''),
                   (''items'', JArr [JObj [(''sku'', JStr ''x''), (''price'', JNum 20000)],
                                     JObj [(''qty'', JStr ''two'')]])]"
  let ?m' = "JObj [(''type'', JStr ''OrderCreated''), (''detail'', ?d')]"
  have h1: "jget ?m ''type'' = Some (JStr ''OrderCreated'')"
    and h1': "jget ?m' ''type'' = Some (JStr ''OrderCreated'')"
    by simp_all
  have h2: "jget ?m ''detail'' = Some ?d" and h2': "jget ?m' ''detail'' = Some ?d'"
    by simp_all
  have h3: "jget ?d ''id'' = Some (JStr ''o3'')" and h3': "jget ?d' ''id'' = Some (JStr ''o3'')"
    by simp_all
  have h4: "''o3'' \<noteq> []"
    by simp
  have h5: "example_table ''o3'' = Some [(''id'', JStr ''o3''), (''status'', JStr ''CANCELLED'')]"
    by (simp add: example_table_def)
  have h6: "unpriced_items (jget ?d ''items'')"
    by (simp add: unpriced_items_def)
  have h6': "unpriced_items (jget ?d' ''items'')"
    by (simp add: unpriced_items_def lacks_field_def)
  have "fst (process_message example_lib ?now None example_table (Json ?m)) = Processed
      \<and> map_option (\<lambda>a. (map_of a ''status'', map_of a ''processingNotes'',
                            map_of a ''updatedAt''))
          (snd (process_message example_lib ?now None example_table (Json ?m)) ''o3'')
        = Some (Some (JStr ''CONFIRMED''), Some (JStr ''Order processed successfully''),
                Some (JStr ?now))
      \<and> (\<forall>k'. k' \<noteq> ''o3'' \<longrightarrow>
             snd (process_message example_lib ?now None example_table (Json ?m)) k' =
             example_table k')"
    using h1 h2 h3 h4 h5 h6 by (rule unpriced_event_is_confirmed)
  then have a: "fst (process_message example_lib ?now None example_table (Json ?m)) = Processed"
    and b: "map_option (\<lambda>a. map_of a ''status'')
              (snd (process_message example_lib ?now None example_table (Json ?m)) ''o3'')
            = Some (Some (JStr ''CONFIRMED''))"
    by (auto simp: map_option_case split: option.splits)
  have "fst (process_message example_lib ?now None example_table (Json ?m')) = Processed
      \<and> map_option (\<lambda>a. (map_of a ''status'', map_of a ''processingNotes'',
                            map_of a ''updatedAt''))
          (snd (process_message example_lib ?now None example_table (Json ?m')) ''o3'')
        = Some (Some (JStr ''CONFIRMED''), Some (JStr ''Order processed successfully''),
                Some (JStr ?now))
      \<and> (\<forall>k'. k' \<noteq> ''o3'' \<longrightarrow>
             snd (process_message example_lib ?now None example_table (Json ?m')) k' =
             example_table k')"
    using h1' h2' h3' h4 h5 h6' by (rule unpriced_event_is_confirmed)
  then have a': "fst (process_message example_lib ?now None example_table (Json ?m')) = Processed"
    and b': "map_option (\<lambda>a. map_of a ''status'')
               (snd (process_message example_lib ?now None example_table (Json ?m')) ''o3'')
             = Some (Some (JStr ''CONFIRMED''))"
    by (auto simp: map_option_case split: option.splits)
  from h5 have c: "map_option (\<lambda>a. map_of a ''status'') (example_table ''o3'')
                   = Some (Some (JStr ''CANCELLED''))"
    by simp
  from h6 a b h6' a' b' c show ?thesis
    by (intro conjI)
qed

text \<open>
  Claim C10 as stated fails on eleven entries that lack qty and price: the count check
  applies, and the status written is PENDING_REVIEW.
\<close>

theorem eleven_unpriced_items_counterexample:
  "map_option (\<lambda>a. map_of a ''status'')
     (snd (process_message example_lib ''2025-01-01T00:00:01.000Z'' None example_table
             (Json (example_event ''o1'' (replicate 11 (JObj [(''sku'', JStr ''x'')])))))
        ''o1'')
   = Some (Some (JStr ''PENDING_REVIEW''))"
proof -
  let ?xs = "replicate 11 (JObj [(''sku'', JStr ''x'')])"
  let ?d = "JObj [(''id'', JStr ''o1''), (''customerName'', JStr ''Alice''), (''items'', JArr ?xs),
                  (''createdAt'', JStr ''2025-01-01T00:00:00.000Z'')]"
  have items: "jget ?d ''items'' = Some (JArr ?xs)"
    by simp
  have whole: "whole_order ?xs"
    by (rule whole_order_replicate) (simp_all add: whole_item_def line_size_def)
  have total: "spec_total ?xs = 0"
    by (simp add: spec_total_replicate)
  have "processOrderCreated example_lib ?d =
        Inr (''PENDING_REVIEW'', ''Large order requires manual review'')"
    using process_whole [OF items whole, of example_lib] total by simp
  then show ?thesis
    by (simp add: example_event_def example_table_def update_item_def Let_def)
qed


section \<open>What the failure list tells the channel\<close>

text \<open>
  Claim C5 asks that the batch result tell a permanently failed message from a
  retryable one. The handler's result is the list of identifiers alone: a message whose
  body does not parse (classed as not to be retried) and a message whose store update is
  throttled (classed as transient) give the same result.
\<close>

theorem permanent_and_transient_reported_alike:
  "process_message example_lib ''2025-01-01T00:00:01.000Z'' None example_table SyntaxError
     = (Failed ParseFailure, example_table)
   \<and> permanent ParseFailure
   \<and> process_message example_lib ''2025-01-01T00:00:01.000Z''
       (Some (JsError (Some ''ProvisionedThroughputExceededException''))) example_table
       (Json (example_event ''o1'' [example_item]))
     = (Failed Transient, example_table)
   \<and> \<not> permanent Transient
   \<and> handler_processor example_lib ''2025-01-01T00:00:01.000Z'' (\<lambda>m. None) example_table
       [\<lparr>messageId = ''m1'', body = SyntaxError\<rparr>]
     = ([''m1''], example_table)
   \<and> handler_processor example_lib ''2025-01-01T00:00:01.000Z''
       (\<lambda>m. Some (JsError (Some ''ProvisionedThroughputExceededException''))) example_table
       [\<lparr>messageId = ''m1'', body = Json (example_event ''o1'' [example_item])\<rparr>]
     = ([''m1''], example_table)"
  by (simp add: handler_processor_def example_event_def example_item_decision)

section \<open>Order intake: what is rejected\<close>

lemma sku_bad_iff: "sku_bad s \<longleftrightarrow> \<not> nonempty_string s"
  by (cases s rule: nonempty_string.cases) (simp_all add: sku_bad_def)

lemma qty_bad_iff: "qty_bad q \<longleftrightarrow> \<not> positive_number q"
  by (cases q rule: positive_number.cases) (auto simp: qty_bad_def)

lemma price_bad_iff: "price_bad p \<longleftrightarrow> \<not> absent_or_nonnegative p"
  by (cases p rule: absent_or_nonnegative.cases) (auto simp: price_bad_def)

lemma customerName_bad_iff: "customerName_bad c \<longleftrightarrow> \<not> nonblank_string c"
  by (cases c rule: nonblank_string.cases) (auto simp: customerName_bad_def js_trim_def)

lemma item_errors_Nil_iff: "item_errors i x = [] \<longleftrightarrow> acceptable_item x"
  by (simp add: item_errors_def acceptable_item_def sku_bad_iff qty_bad_iff price_bad_iff)

lemma items_errors_Nil [simp]: "items_errors i [] = []"
  by (simp add: items_errors_def)

lemma items_errors_Cons:
  "items_errors i (x # xs) = item_errors i x @ items_errors (Suc i) xs"
  by (simp add: items_errors_def)

lemma check_items_no_null:
  "JNull \<notin> set xs \<Longrightarrow> check_items i xs errs = Inr (errs @ items_errors i xs)"
proof (induction xs arbitrary: i errs)
  case Nil
  then show ?case by simp
next
  case (Cons x xs)
  then have nn: "x \<noteq> JNull" and rest: "JNull \<notin> set xs"
    by auto
  have "check_item i x = Inr (item_errors i x)"
    using nn by (cases x) simp_all
  with Cons.IH [OF rest] show ?case
    by (simp add: items_errors_Cons)
qed

lemma items_errors_Nil_iff:
  "items_errors i xs = [] \<longleftrightarrow> list_all acceptable_item xs"
proof (induction xs arbitrary: i)
  case Nil
  then show ?case by simp
next
  case (Cons x xs)
  then show ?case
    by (simp add: items_errors_Cons item_errors_Nil_iff)
qed

lemma set_item_errors:
  "set (item_errors j x) =
     (if sku_bad (jget x ''sku'') then {ItemSku j} else {}) \<union>
     (if qty_bad (jget x ''qty'') then {ItemQty j} else {}) \<union>
     (if price_bad (jget x ''price'') then {ItemPrice j} else {})"
  by (simp add: item_errors_def)

lemma set_items_errors:
  "set (items_errors i xs) = (\<Union>n<length xs. set (item_errors (i + n) (xs ! n)))"
proof (induction xs arbitrary: i)
  case Nil
  then show ?case by simp
next
  case (Cons x xs)
  have "(\<Union>n<length (x # xs). set (item_errors (i + n) ((x # xs) ! n))) =
        set (item_errors i x) \<union> (\<Union>n<length xs. set (item_errors (Suc i + n) (xs ! n)))"
    by (auto simp: less_Suc_eq_0_disj)
  with Cons.IH [of "Suc i"] show ?case
    by (simp add: items_errors_Cons)
qed


lemma validate_falsy:
  "\<not> truthy (Some v) \<Longrightarrow> validateOrderData v = Inr \<lparr>isValid = False, errors = [BodyRequired]\<rparr>"
  by (simp add: validateOrderData_def)

lemma validate_no_array:
  assumes "truthy (Some v)" and "\<not> nonempty_array (jget v ''items'')"
  shows "validateOrderData v =
         Inr \<lparr>isValid = False,
              errors = (if customerName_bad (jget v ''customerName'')
                        then [CustomerNameInvalid] else []) @ [ItemsInvalid]\<rparr>"
  using assms
  by (cases "jget v ''items''" rule: nonempty_array.cases)
     (simp_all add: validateOrderData_def)

lemma validate_array:
  assumes "truthy (Some v)" and "jget v ''items'' = Some (JArr (x # xs))"
    and "JNull \<notin> set (x # xs)"
  shows "validateOrderData v =
         Inr \<lparr>isValid = (\<not> customerName_bad (jget v ''customerName'') \<and>
                         list_all acceptable_item (x # xs)),
              errors = (if customerName_bad (jget v ''customerName'')
                        then [CustomerNameInvalid] else []) @ items_errors 0 (x # xs)\<rparr>"
proof -
  have "check_items 0 (x # xs) errs = Inr (errs @ items_errors 0 (x # xs))" for errs
    using assms(3) by (rule check_items_no_null)
  moreover have "items_errors 0 (x # xs) = [] \<longleftrightarrow> list_all acceptable_item (x # xs)"
    by (rule items_errors_Nil_iff)
  ultimately show ?thesis
    using assms(1,2) by (simp add: validateOrderData_def)
qed

lemma validate_total:
  assumes "no_null_item (Json v)"
  shows "\<exists>errs. validateOrderData v = Inr \<lparr>isValid = acceptable_order v, errors = errs\<rparr>"
proof (cases "truthy (Some v)")
  case False
  then show ?thesis
    by (simp add: validate_falsy acceptable_order_def)
next
  case True
  show ?thesis
  proof (cases "nonempty_array (jget v ''items'')")
    case False
    with True show ?thesis
      by (simp add: validate_no_array acceptable_order_def)
  next
    case ne: True
    then obtain x xs where items: "jget v ''items'' = Some (JArr (x # xs))"
      by (cases "jget v ''items''" rule: nonempty_array.cases) simp_all
    with assms have nn: "JNull \<notin> set (x # xs)"
      by simp
    show ?thesis
      using validate_array [OF True items nn] True items
      by (simp add: acceptable_order_def customerName_bad_iff)
  qed
qed


lemma in_items_errors:
  "ItemSku i \<in> set (items_errors 0 xs) \<longleftrightarrow> i < length xs \<and> \<not> nonempty_string (jget (xs ! i) ''sku'')"
  "ItemQty i \<in> set (items_errors 0 xs) \<longleftrightarrow> i < length xs \<and> \<not> positive_number (jget (xs ! i) ''qty'')"
  "ItemPrice i \<in> set (items_errors 0 xs) \<longleftrightarrow> i < length xs \<and> \<not> absent_or_nonnegative (jget (xs ! i) ''price'')"
  "CustomerNameInvalid \<notin> set (items_errors 0 xs)"
  "ItemsInvalid \<notin> set (items_errors 0 xs)"
  by (auto simp: set_items_errors set_item_errors sku_bad_iff qty_bad_iff price_bad_iff
      split: if_splits)

lemma violations_complete:
  assumes "no_null_item (Json v)"
  shows "lists_every_violation v (violations v)"
proof (cases "truthy (Some v)")
  case False
  then show ?thesis
    by (simp add: lists_every_violation_def violations_def validate_falsy)
next
  case True
  show ?thesis
  proof (cases "nonempty_array (jget v ''items'')")
    case False
    then have "array_elems (jget v ''items'') = [] \<or> (\<exists>u. jget v ''items'' = Some u \<and> (\<forall>xs. u \<noteq> JArr xs))"
      by (cases "jget v ''items''" rule: nonempty_array.cases) auto
    then have el: "array_elems (jget v ''items'') = []"
      by (cases "jget v ''items''" rule: array_elems.cases) auto
    from True False show ?thesis
      by (simp add: lists_every_violation_def violations_def validate_no_array
          customerName_bad_iff el)
  next
    case ne: True
    then obtain x xs where items: "jget v ''items'' = Some (JArr (x # xs))"
      by (cases "jget v ''items''" rule: nonempty_array.cases) simp_all
    with assms have nn: "JNull \<notin> set (x # xs)"
      by simp
    have "violations v =
          (if customerName_bad (jget v ''customerName'') then [CustomerNameInvalid] else [])
          @ items_errors 0 (x # xs)"
      by (simp add: violations_def validate_array [OF True items nn])
    then show ?thesis
      using True items
      by (simp add: lists_every_violation_def customerName_bad_iff in_items_errors)
  qed
qed

lemma create_failure_not_400: "statusCode (create_failure rid e) \<noteq> 400"
  by (cases e) (simp add: error_response_def)

lemma is_ws_space: "is_ws CHR '' ''" "\<not> is_ws CHR ''A''" "\<not> is_ws CHR ''e''"
  by (simp_all add: is_ws_def)

text \<open>
  Claim C3, as the code has it. For a request whose parsed body is not \<^verbatim>\<open>null\<close> and whose
  \<^verbatim>\<open>items\<close> array holds no \<^verbatim>\<open>null\<close> entry, the create-order operation answers 400 exactly
  when the body does not parse or the parsed body (an absent body reads as the empty
  object) is not acceptable: it is falsy, \<^verbatim>\<open>customerName\<close> is not a non-blank string,
  \<^verbatim>\<open>items\<close> is not a non-empty array, or some item's \<^verbatim>\<open>sku\<close> is not a non-empty string, its
  \<^verbatim>\<open>qty\<close> not a number above 0, or its \<^verbatim>\<open>price\<close> present and not a number of at least 0. The
  answer to an unacceptable parsed body carries the message of every violated field,
  joined by commas.
\<close>

theorem create_rejects_exactly:
  assumes "no_null_item (parse_body b)"
  shows "(statusCode (fst (handler_create L env tbl queue b)) = 400 \<longleftrightarrow> rejected (parse_body b))
       \<and> (\<forall>v. parse_body b = Json v \<and> \<not> acceptable_order v \<longrightarrow>
             fst (handler_create L env tbl queue b) =
               error_response 400 ''Validation failed'' (join_comma (map render (violations v)))
             \<and> lists_every_violation v (violations v))"
proof (cases "parse_body b")
  case SyntaxError
  then show ?thesis
    by (simp add: handler_create_def error_response_def)
next
  case (Json v)
  with assms have nn: "no_null_item (Json v)"
    by simp
  from validate_total [OF nn] obtain errs where
    val: "validateOrderData v = Inr \<lparr>isValid = acceptable_order v, errors = errs\<rparr>"
    by blast
  have viol: "violations v = errs"
    by (simp add: violations_def val)
  show ?thesis
  proof (cases "acceptable_order v")
    case False
    from nn have "v \<noteq> JNull"
      by simp
    then have log: "(case v of JNull \<Rightarrow> x | _ \<Rightarrow> y) = y" for x y :: "http_response \<times> table \<times> jsval list"
      by (cases v) simp_all
    from False Json val viol violations_complete [OF nn] show ?thesis
      by (simp add: handler_create_def error_response_def log)
  next
    case True
    have "statusCode (fst (handler_create L env tbl queue b)) \<noteq> 400"
      using Json val True
      by (simp add: handler_create_def Let_def create_failure_not_400
          split: option.split sum.split)
    with Json True show ?thesis
      by simp
  qed
qed


theorem create_rejects_exactly_witness:
  "fst (handler_create example_lib example_env Map.empty [] (BodyText (Json example_bad_body))) =
     error_response 400 ''Validation failed''
       (''customerName is required and must be a non-empty string, '' @
        ''Item 0: qty is required and must be a positive number, '' @
        ''Item 1: sku is required and must be a string, '' @
        ''Item 1: price must be a non-negative number'')
   \<and> statusCode (fst (handler_create example_lib example_env Map.empty []
                        (BodyText (Json example_good_body)))) \<noteq> 400
   \<and> statusCode (fst (handler_create example_lib example_env Map.empty [] BodyAbsent)) = 400"
proof -
  have nn1: "no_null_item (parse_body (BodyText (Json example_bad_body)))"
    by (simp add: example_bad_body_def)
  have nn2: "no_null_item (parse_body (BodyText (Json example_good_body)))"
    by (simp add: example_good_body_def)
  have nn3: "no_null_item (parse_body BodyAbsent)"
    by simp
  have bad: "\<not> acceptable_order example_bad_body"
    by (simp add: acceptable_order_def example_bad_body_def js_trim_def is_ws_space)
  have good: "acceptable_order example_good_body"
    by (simp add: acceptable_order_def acceptable_item_def example_good_body_def js_trim_def
        is_ws_space)
  have empty: "\<not> acceptable_order (JObj [])"
    by (simp add: acceptable_order_def)
  have v: "violations example_bad_body =
           [CustomerNameInvalid, ItemQty 0, ItemSku 1, ItemPrice 1]"
    by (simp add: violations_def validateOrderData_def example_bad_body_def customerName_bad_def
        js_trim_def is_ws_space item_errors_def sku_bad_def qty_bad_def price_bad_def)
  have r: "join_comma (map render [CustomerNameInvalid, ItemQty 0, ItemSku 1, ItemPrice 1]) =
           ''customerName is required and must be a non-empty string, '' @
           ''Item 0: qty is required and must be a positive number, '' @
           ''Item 1: sku is required and must be a string, '' @
           ''Item 1: price must be a non-negative number''"
    by (simp add: show_nat.simps)
  from create_rejects_exactly [OF nn1, of example_lib example_env Map.empty "[]"] bad
  have 1: "fst (handler_create example_lib example_env Map.empty [] (BodyText (Json example_bad_body))) =
           error_response 400 ''Validation failed''
             (join_comma (map render (violations example_bad_body)))"
    by simp
  from create_rejects_exactly [OF nn2, of example_lib example_env Map.empty "[]"] good
  have 2: "statusCode (fst (handler_create example_lib example_env Map.empty []
                              (BodyText (Json example_good_body)))) \<noteq> 400"
    by simp
  from create_rejects_exactly [OF nn3, of example_lib example_env Map.empty "[]"] empty
  have 3: "statusCode (fst (handler_create example_lib example_env Map.empty [] BodyAbsent)) = 400"
    by (simp add: error_response_def)
  from 1 2 3 show ?thesis
    unfolding v r by simp
qed

text \<open>
  A parsed body of \<^verbatim>\<open>null\<close> is answered with 500: the validation fails, and the warning's
  argument reads a property of \<^verbatim>\<open>null\<close>.
\<close>

lemma null_body_answers_500:
  "statusCode (fst (handler_create L env tbl queue (BodyText (Json JNull)))) = 500"
  by (simp add: handler_create_def validateOrderData_def TypeError_def)

text \<open>
  Claim C3 as stated fails on a price that is a string: it is not negative, none of the
  listed conditions holds, and the request is still rejected with 400.
\<close>

theorem string_price_counterexample:
  "\<not> claimed_invalid (BodyText (Json example_string_price_body))
   \<and> fst (handler_create example_lib example_env Map.empty [] (BodyText (Json example_string_price_body))) =
       error_response 400 ''Validation failed'' ''Item 0: price must be a non-negative number''"
  by (simp add: example_string_price_body_def claimed_bad_item_def js_trim_def is_ws_space
      handler_create_def validateOrderData_def customerName_bad_def item_errors_def
      sku_bad_def qty_bad_def price_bad_def show_nat.simps)


section \<open>The single read: identifiers and orders\<close>

lemma example_uuid_valid: "isValidUUID example_uuid"
  by code_simp


lemma isValidUUID_length: "isValidUUID i \<Longrightarrow> length i = 36"
  by (auto simp: isValidUUID_def uuidRegex_def dest!: list_all2_lengthD)

lemma isValidUUID_nonempty: "isValidUUID i \<Longrightarrow> i \<noteq> []"
  by (auto dest: isValidUUID_length)

















section \<open>The single read: derived fields\<close>

lemma itemCount_array: "itemCount (Some (JArr xs)) = JNum (of_nat (length xs))"
  by simp

lemma enrich_array:
  assumes "map_of order ''items'' = Some (JArr xs)" and "reduce_total L (Fin 0) xs = Inr t"
  shows "enrich L order =
           Inr (obj_set ''orderTotal'' (num_json (toFixed2 t))
                  (obj_set ''itemCount'' (JNum (of_nat (length xs))) order))"
  using assms by (simp add: enrich_def)

lemma round_cents_whole:
  assumes "of_int \<lfloor>r * 100\<rfloor> = r * 100"
  shows "round_cents r = r"
proof -
  define k where "k = \<lfloor>r * 100\<rfloor>"
  have k: "r * 100 = of_int k"
    unfolding k_def by (rule assms [symmetric])
  have "\<bar>r\<bar> * 100 = of_int \<bar>k\<bar>"
    using k by (simp add: abs_mult [symmetric])
  then have "\<lfloor>\<bar>r\<bar> * 100 + 1 / 2\<rfloor> = \<bar>k\<bar>"
    by (intro floor_unique) simp_all
  then have "round_cents r = sgn r * (\<bar>r\<bar> * 100) / 100"
    unfolding round_cents_def using \<open>\<bar>r\<bar> * 100 = of_int \<bar>k\<bar>\<close> by simp
  also have "\<dots> = sgn r * \<bar>r\<bar>"
    by simp
  also have "\<dots> = r"
    by (rule sgn_mult_abs)
  finally show ?thesis .
qed

lemma spec_total_whole:
  "list_all whole_item xs \<Longrightarrow> \<exists>k. spec_total xs = of_int k"
proof (induction xs)
  case Nil
  have "spec_total [] = of_int 0"
    by (simp add: spec_total_def)
  then show ?case ..
next
  case (Cons x xs)
  then have wx: "whole_item x" and rest: "list_all whole_item xs"
    by simp_all
  from line_size_whole [OF wx] obtain m where
    m: "field_or0 (jget x ''qty'') * field_or0 (jget x ''price'') = of_int m" ..
  from Cons.IH [OF rest] obtain k where k: "spec_total xs = of_int k" ..
  have "spec_total (x # xs) = of_int (m + k)"
    using m k by (simp add: spec_total_def)
  then show ?case ..
qed

lemma spec_total_bound: "\<bar>spec_total xs\<bar> \<le> (\<Sum>x\<leftarrow>xs. line_size x)"
proof (induction xs)
  case Nil
  then show ?case
    by (simp add: spec_total_def)
next
  case (Cons x xs)
  let ?v = "field_or0 (jget x ''qty'') * field_or0 (jget x ''price'')"
  have "\<bar>spec_total (x # xs)\<bar> = \<bar>?v + spec_total xs\<bar>"
    by (simp add: spec_total_def)
  also have "\<dots> \<le> \<bar>?v\<bar> + \<bar>spec_total xs\<bar>"
    by (rule abs_triangle_ineq)
  also have "\<dots> \<le> line_size x + (\<Sum>y\<leftarrow>xs. line_size y)"
    using Cons.IH by (simp add: line_size_def)
  finally show ?case
    by simp
qed

lemma toFixed2_whole:
  assumes "whole_order xs"
  shows "toFixed2 (Fin (spec_total xs)) = Fin (spec_total xs)"
proof -
  from assms have all: "list_all whole_item xs" and sz: "(\<Sum>x\<leftarrow>xs. line_size x) \<le> 2 ^ 53"
    by (simp_all add: whole_order_def)
  from spec_total_whole [OF all] obtain k where k: "spec_total xs = of_int k" ..
  have b: "\<bar>spec_total xs\<bar> \<le> 2 ^ 53"
    using spec_total_bound [of xs] sz by simp
  have "spec_total xs * 100 = of_int (k * 100)"
    by (simp add: k)
  then have "of_int \<lfloor>spec_total xs * 100\<rfloor> = spec_total xs * 100"
    by (simp only: floor_of_int)
  then have c: "round_cents (spec_total xs) = spec_total xs"
    by (rule round_cents_whole)
  have "(2::rat) ^ 53 < 10 ^ 21"
    by simp
  with b have small: "\<not> 10 ^ 21 \<le> \<bar>spec_total xs\<bar>"
    by simp
  show ?thesis
    using small by (simp add: c round_double_whole [OF k b])
qed

lemma example_subcent_total:
  "reduce_total L (Fin 0) [priced (12 + 1 / 2 ^ 10)] = Inr (Fin (12 + 1 / 2 ^ 10))"
  using round_subcent_example
  by (simp add: reduce_total_Cons priced_fields item_value_priced)

lemma example_subcent_cents: "toFixed2 (Fin (12 + 1 / 2 ^ 10)) = Fin 12"
proof -
  have "\<lfloor>\<bar>12 + 1 / 2 ^ 10 :: rat\<bar> * 100 + 1 / 2\<rfloor> = 1200"
    by (simp add: floor_eq_iff)
  then have "round_cents (12 + 1 / 2 ^ 10) = 12"
    by (simp add: round_cents_def)
  then show ?thesis
    using round_whole_example(1) by simp
qed

text \<open>
  Claim C9, as the code has it. For every stored order whose total the handler can
  compute, the response's derived \<^verbatim>\<open>orderTotal\<close> is that total, the running sum in double
  arithmetic of price times qty over the items (an absent price or qty counting as 0),
  rounded to two decimals by \<^verbatim>\<open>toFixed(2)\<close>; for an order in whole numbers it is the exact
  sum of qty times price. It is computed when the response is built and the table is left
  as it was; and the derived \<^verbatim>\<open>itemCount\<close> is the number of items. The listing enriches
  each order of its page by the same computation.
\<close>

theorem derived_total_is_rounded_sum:
  assumes "isValidUUID i"
    and "tbl i = Some order"
    and "map_of order ''items'' = Some (JArr xs)"
    and "reduce_total L (Fin 0) xs = Inr t"
  shows "snd (handler_get L rid None tbl (Some i)) = tbl
       \<and> statusCode (fst (handler_get L rid None tbl (Some i))) = 200
       \<and> data_field (fst (handler_get L rid None tbl (Some i))) ''orderTotal'' =
           Some (num_json (toFixed2 t))
       \<and> data_field (fst (handler_get L rid None tbl (Some i))) ''itemCount'' =
           Some (JNum (of_nat (length xs)))
       \<and> (whole_order xs \<longrightarrow>
            data_field (fst (handler_get L rid None tbl (Some i))) ''orderTotal'' =
              Some (JNum (spec_total xs)))
       \<and> enrich L order =
           Inr (obj_set ''orderTotal'' (num_json (toFixed2 t))
                  (obj_set ''itemCount'' (JNum (of_nat (length xs))) order))"
proof -
  have ne: "i \<noteq> []"
    using assms(1) by (rule isValidUUID_nonempty)
  have e: "enrich L order =
           Inr (obj_set ''orderTotal'' (num_json (toFixed2 t))
                  (obj_set ''itemCount'' (JNum (of_nat (length xs))) order))"
    using assms(3,4) by (rule enrich_array)
  have h: "handler_get L rid None tbl (Some i) =
           (\<lparr>statusCode = 200,
             payload = JObj [(''success'', JBool True),
                             (''data'',
                              JObj (obj_set ''orderTotal'' (num_json (toFixed2 t))
                                      (obj_set ''itemCount'' (JNum (of_nat (length xs)))
                                         order)))]\<rparr>, tbl)"
    using assms(1,2) ne e by (simp add: handler_get_def)
  have w: "num_json (toFixed2 t) = JNum (spec_total xs)" if "whole_order xs"
  proof -
    from reduce_total_whole [OF that, of L] assms(4) have t: "t = Fin (spec_total xs)"
      by simp
    show ?thesis
      unfolding t toFixed2_whole [OF that] by simp
  qed
  show ?thesis
    unfolding h e using w by (simp add: map_of_obj_set data_field_def)
qed

theorem derived_total_is_rounded_sum_witness:
  "reduce_total example_lib (Fin 0)
     [JObj [(''sku'', JStr ''x''), (''qty'', JNum 1), (''price'', JNum 10)]] = Inr (Fin 10)
   \<and> whole_order [JObj [(''sku'', JStr ''x''), (''qty'', JNum 1), (''price'', JNum 10)]]
   \<and> data_field (fst (handler_get example_lib ''req-1'' None example_orders (Some example_uuid)))
     ''orderTotal'' = Some (JNum 10)
   \<and> data_field (fst (handler_get example_lib ''req-1'' None example_orders (Some example_uuid)))
     ''itemCount'' = Some (JNum 1)
   \<and> snd (handler_get example_lib ''req-1'' None example_orders (Some example_uuid))
     = example_orders"
proof -
  let ?xs = "[JObj [(''sku'', JStr ''x''), (''qty'', JNum 1), (''price'', JNum 10)]]"
  let ?order = "[(''id'', JStr example_uuid), (''customerName'', JStr ''Alice''),
                 (''items'', JArr ?xs),
                 (''status'', JStr ''PENDING''),
                 (''createdAt'', JStr ''2025-01-01T00:00:00.000Z''),
                 (''updatedAt'', JStr ''2025-01-01T00:00:00.000Z'')]"
  let ?r = "fst (handler_get example_lib ''req-1'' None example_orders (Some example_uuid))"
  have o: "example_orders example_uuid = Some ?order"
    by (simp add: example_orders_def)
  have items: "map_of ?order ''items'' = Some (JArr ?xs)"
    by simp
  have whole: "whole_order ?xs"
    by (simp add: whole_order_def whole_item_def line_size_def)
  have total: "spec_total ?xs = 10"
    by (simp add: spec_total_def)
  have sum: "reduce_total example_lib (Fin 0) ?xs = Inr (Fin 10)"
    using reduce_total_whole [OF whole, of example_lib] by (simp only: total)
  have "snd (handler_get example_lib ''req-1'' None example_orders (Some example_uuid))
          = example_orders
       \<and> statusCode ?r = 200
       \<and> data_field ?r ''orderTotal'' = Some (num_json (toFixed2 (Fin 10)))
       \<and> data_field ?r ''itemCount'' = Some (JNum (of_nat (length ?xs)))
       \<and> (whole_order ?xs \<longrightarrow> data_field ?r ''orderTotal'' = Some (JNum (spec_total ?xs)))
       \<and> enrich example_lib ?order =
           Inr (obj_set ''orderTotal'' (num_json (toFixed2 (Fin 10)))
                  (obj_set ''itemCount'' (JNum (of_nat (length ?xs))) ?order))"
    using example_uuid_valid o items sum by (rule derived_total_is_rounded_sum)
  with whole have
    "data_field ?r ''orderTotal'' = Some (JNum (spec_total ?xs))"
    and "data_field ?r ''itemCount'' = Some (JNum (of_nat (length ?xs)))"
    and "snd (handler_get example_lib ''req-1'' None example_orders (Some example_uuid))
          = example_orders"
    by blast+
  with sum whole show ?thesis
    by (simp add: total)
qed

text \<open>
  Claim C9 as stated fails on a total with more than two decimals: one item at
  \<open>12 + 2\<^sup>-\<^sup>1\<^sup>0\<close> (12.0009765625) adds up to that price, and the response carries 12.
\<close>

theorem subcent_total_counterexample:
  "spec_total [priced (12 + 1 / 2 ^ 10)] = 12 + 1 / 2 ^ 10
   \<and> data_field (fst (handler_get example_lib ''req-1'' None example_subcent_orders
                        (Some example_uuid))) ''orderTotal''
     = Some (JNum 12)"
proof -
  let ?xs = "[priced (12 + 1 / 2 ^ 10)]"
  let ?order = "[(''id'', JStr example_uuid), (''customerName'', JStr ''Alice''),
                 (''items'', JArr ?xs), (''status'', JStr ''PENDING'')]"
  let ?r = "fst (handler_get example_lib ''req-1'' None example_subcent_orders
                   (Some example_uuid))"
  have ne: "example_uuid \<noteq> []"
    using example_uuid_valid by (rule isValidUUID_nonempty)
  have o: "example_subcent_orders example_uuid = Some ?order"
    by (simp add: example_subcent_orders_def)
  have items: "map_of ?order ''items'' = Some (JArr ?xs)"
    by simp
  have e: "enrich example_lib ?order =
           Inr (obj_set ''orderTotal'' (num_json (toFixed2 (Fin (12 + 1 / 2 ^ 10))))
                  (obj_set ''itemCount'' (JNum (of_nat (length ?xs))) ?order))"
    using items example_subcent_total by (rule enrich_array)
  have "data_field ?r ''orderTotal'' = Some (num_json (toFixed2 (Fin (12 + 1 / 2 ^ 10))))"
    using example_uuid_valid ne o e
    by (simp add: handler_get_def map_of_obj_set data_field_def del: toFixed2.simps)
  moreover have "spec_total ?xs = 12 + 1 / 2 ^ 10"
    by (simp add: spec_total_def priced_fields)
  ultimately show ?thesis
    by (simp only: example_subcent_cents num_json.simps)
qed


section \<open>The listing: the page limit\<close>

lemma digit_chars: "n < 10 \<Longrightarrow> is_digit (''0123456789'' ! n) \<and> digit_val (''0123456789'' ! n) = n"
proof -
  assume "n < 10"
  then consider "n = 0" | "n = 1" | "n = 2" | "n = 3" | "n = 4" | "n = 5" | "n = 6" | "n = 7" | "n = 8" | "n = 9"
    by atomize_elim arith
  then show ?thesis
    by cases (simp_all add: is_digit_def digit_val_def)
qed

lemma show_nat_digits: "list_all is_digit (show_nat n) \<and> show_nat n \<noteq> []"
proof (induction n rule: show_nat.induct)
  case (1 n)
  show ?case
  proof (cases "n < 10")
    case True
    then show ?thesis
      by (subst show_nat.simps, subst show_nat.simps) (simp add: digit_chars)
  next
    case False
    with 1 show ?thesis
      by (subst show_nat.simps, subst show_nat.simps) (simp add: digit_chars)
  qed
qed

lemma digits_val_append: "digits_val (ds @ [c]) = 10 * digits_val ds + digit_val c"
  by (simp add: digits_val_def)

lemma digits_val_show_nat: "digits_val (show_nat n) = n"
proof (induction n rule: show_nat.induct)
  case (1 n)
  show ?case
  proof (cases "n < 10")
    case True
    then show ?thesis
      by (subst show_nat.simps) (simp add: digits_val_def digit_chars)
  next
    case False
    with 1 have "digits_val (show_nat (n div 10)) = n div 10"
      by simp
    with False show ?thesis
      by (subst show_nat.simps) (simp add: digits_val_append digit_chars)
  qed
qed

lemma digit_not_ws: "is_digit c \<Longrightarrow> \<not> is_ws c \<and> c \<noteq> CHR ''-'' \<and> c \<noteq> CHR ''+''"
  by (auto simp: is_digit_def is_ws_def)

lemma parseInt_show_nat: "parseInt (show_nat n) = Some (int n)"
proof -
  from show_nat_digits [of n] obtain c cs where s: "show_nat n = c # cs"
    and d: "list_all is_digit (c # cs)"
    by (cases "show_nat n") auto
  then have c: "is_digit c"
    by simp
  have dw: "dropWhile is_ws (c # cs) = c # cs"
    using digit_not_ws [OF c] by simp
  have sp: "split_sign (c # cs) = (False, c # cs)"
    using digit_not_ws [OF c] by simp
  have tw: "takeWhile is_digit (c # cs) = c # cs"
    using d by (simp add: list_all_iff)
  have "parseInt (c # cs) = Some (int (digits_val (c # cs)))"
    unfolding parseInt_def dw sp by (simp add: tw del: takeWhile.simps)
  then show ?thesis
    using digits_val_show_nat [of n] by (simp add: s)
qed


lemma p_limit_parse_status [simp]: "p_limit (parse_status q p) = p_limit p"
  by (simp add: parse_status_def split: option.split)

lemma p_limit_parse_sortOrder [simp]: "p_limit (parse_sortOrder q p) = p_limit p"
  by (simp add: parse_sortOrder_def split: option.split)

lemma p_limit_parse_nextToken [simp]: "p_limit (fst (parse_nextToken d q p)) = p_limit p"
  by (simp add: parse_nextToken_def split: option.split parsed.split)

lemma p_limit_Some:
  "p_limit (fst (parseQueryParameters decode (Some qs))) =
     p_limit (parse_limit (q_limit qs) default_params)"
  by (simp add: parseQueryParameters_def)

lemma parse_limit_value:
  "p_limit (parse_limit (Some s) default_params) =
     (case parseInt s of
        Some m \<Rightarrow> if 0 < m \<and> m \<le> 100 then m else 10
      | None \<Rightarrow> 10)"
proof (cases "s = []")
  case True
  then show ?thesis
    by (simp add: parse_limit_def parseInt_def default_params_def)
next
  case False
  then show ?thesis
    by (simp add: parse_limit_def default_params_def split: option.split)
qed

text \<open>
  Claim C6, as the code has it. The effective page limit of the listing always lies in
  1..100 and is 10 when no limit is given; a requested limit that \<^verbatim>\<open>parseInt\<close> reads as a
  number in 1..100 is used as it is, and any other (not a number, 0 or less, above 100)
  leaves the default 10 in place: the limit is not clamped. In particular a limit
  written as the decimal text of \<open>n\<close> gives \<open>n\<close> when \<open>n\<close> is in 1..100 and 10 otherwise.
\<close>

theorem limit_used_or_default:
  "1 \<le> p_limit (fst (parseQueryParameters decode q))
   \<and> p_limit (fst (parseQueryParameters decode q)) \<le> 100
   \<and> (q = None \<longrightarrow> p_limit (fst (parseQueryParameters decode q)) = 10)
   \<and> (\<forall>qs. q = Some qs \<and> q_limit qs = None \<longrightarrow>
         p_limit (fst (parseQueryParameters decode q)) = 10)
   \<and> (\<forall>qs s. q = Some qs \<and> q_limit qs = Some s \<longrightarrow>
         p_limit (fst (parseQueryParameters decode q)) =
           (case parseInt s of
              Some m \<Rightarrow> if 1 \<le> m \<and> m \<le> 100 then m else 10
            | None \<Rightarrow> 10))
   \<and> (\<forall>qs n. q = Some qs \<and> q_limit qs = Some (show_nat n) \<longrightarrow>
         p_limit (fst (parseQueryParameters decode q)) =
           (if 1 \<le> n \<and> n \<le> 100 then int n else 10))"
proof (cases q)
  case None
  then show ?thesis
    by (simp add: parseQueryParameters_def default_params_def)
next
  case (Some qs)
  show ?thesis
  proof (cases "q_limit qs")
    case None
    with Some show ?thesis
      by (simp add: p_limit_Some parse_limit_def default_params_def)
  next
    case (Some s)
    with \<open>q = Some qs\<close> show ?thesis
      by (auto simp: p_limit_Some parse_limit_value parseInt_show_nat split: option.split)
  qed
qed

theorem limit_used_or_default_witness:
  "p_limit (fst (parseQueryParameters example_decode (Some (example_query (Some ''25'') None))))
     = 25
   \<and> p_limit (fst (parseQueryParameters example_decode (Some (example_query (Some ''0'') None))))
     = 10
   \<and> p_limit (fst (parseQueryParameters example_decode (Some (example_query None None))))
     = 10"
proof -
  have a: "show_nat 25 = ''25''" and b: "show_nat 0 = ''0''"
    by (simp_all add: show_nat.simps)
  have ql: "q_limit (example_query l t) = l" for l t
    by (simp add: example_query_def)
  have shown: "p_limit (fst (parseQueryParameters example_decode
                               (Some (example_query (Some (show_nat n)) None)))) =
               (if 1 \<le> n \<and> n \<le> 100 then int n else 10)" for n
    using limit_used_or_default [of example_decode "Some (example_query (Some (show_nat n)) None)"]
      ql [of "Some (show_nat n)" None]
    by blast
  have absent: "p_limit (fst (parseQueryParameters example_decode
                                (Some (example_query None None)))) = 10"
    using limit_used_or_default [of example_decode "Some (example_query None None)"]
      ql [of None None]
    by blast
  from shown [of 25] shown [of 0] absent show ?thesis
    unfolding a b by simp
qed


text \<open>
  Claim C6 as stated fails above the range: a requested limit of 500 gives 10, not 100.
\<close>

theorem limit_above_range_counterexample:
  "p_limit (fst (parseQueryParameters example_decode (Some (example_query (Some ''500'') None))))
     = 10"
  by (simp add: parseQueryParameters_def example_query_def parse_limit_def parseInt_def
      is_ws_def is_digit_def digits_val_def digit_val_def default_params_def)


section \<open>The listing: the continuation token\<close>

lemma parse_nextToken_unparsable:
  assumes "token \<noteq> []" and "decode token = SyntaxError"
  shows "parse_nextToken decode (Some token) params =
           (params, [(''warn'', ''Invalid pagination token provided'')])"
    and "parse_nextToken decode None params = (params, [])"
  using assms by (simp_all add: parse_nextToken_def)

lemma parseQueryParameters_unparsable:
  assumes "q_nextToken qs = Some token" and "token \<noteq> []" and "decode token = SyntaxError"
  shows "parseQueryParameters decode (Some qs) =
           (fst (parseQueryParameters decode (Some (qs\<lparr>q_nextToken := None\<rparr>))),
            [(''warn'', ''Invalid pagination token provided'')])"
  using assms by (simp add: parseQueryParameters_def parse_nextToken_unparsable)

lemma parseQueryParameters_no_token:
  "snd (parseQueryParameters decode (Some (qs\<lparr>q_nextToken := None\<rparr>))) = []"
  by (simp add: parseQueryParameters_def parse_nextToken_def)

lemma lastEvaluatedKey_no_token:
  "p_lastEvaluatedKey (fst (parseQueryParameters decode (Some (qs\<lparr>q_nextToken := None\<rparr>)))) = JNull"
  by (simp add: parseQueryParameters_def parse_nextToken_def parse_sortOrder_def
      parse_status_def parse_limit_def default_params_def split: option.split)

text \<open>
  What the handler does for a token that cannot be decoded (decoding throws): it logs a
  warning and ignores the token. The start key stays \<^verbatim>\<open>null\<close>, and the response is the one
  the same request without a token gets, so the listing restarts from the beginning and
  the token causes no error.
\<close>

lemma unparsable_token_ignored:
  assumes "q_nextToken qs = Some token"
    and "token \<noteq> []"
    and "decode_token env token = SyntaxError"
  shows "fst (handler_list L rid env (Some qs)) =
           fst (handler_list L rid env (Some (qs\<lparr>q_nextToken := None\<rparr>)))
       \<and> snd (handler_list L rid env (Some qs)) =
           [(''warn'', ''Invalid pagination token provided'')]
       \<and> snd (handler_list L rid env (Some (qs\<lparr>q_nextToken := None\<rparr>))) = []
       \<and> p_lastEvaluatedKey (fst (parseQueryParameters (decode_token env) (Some qs))) = JNull"
proof -
  obtain p where p: "parseQueryParameters (decode_token env) (Some (qs\<lparr>q_nextToken := None\<rparr>))
                       = (p, [])"
    using parseQueryParameters_no_token [of "decode_token env" qs]
    by (cases "parseQueryParameters (decode_token env) (Some (qs\<lparr>q_nextToken := None\<rparr>))") simp
  have q: "parseQueryParameters (decode_token env) (Some qs) =
             (p, [(''warn'', ''Invalid pagination token provided'')])"
    using parseQueryParameters_unparsable [where decode = "decode_token env", OF assms] p
    by simp
  have k: "p_lastEvaluatedKey p = JNull"
    using lastEvaluatedKey_no_token [of "decode_token env" qs] p by simp
  show ?thesis
    by (simp add: handler_list_def p q k Let_def split: sum.split)
qed

lemma unparsable_token_ignored_example:
  "handler_list example_lib ''req-1'' example_list_env
     (Some (example_query None (Some ''%%%'')))
   = (fst (handler_list example_lib ''req-1'' example_list_env (Some (example_query None None))),
      [(''warn'', ''Invalid pagination token provided'')])
   \<and> statusCode (fst (handler_list example_lib ''req-1'' example_list_env
                        (Some (example_query None (Some ''%%%''))))) = 200"
proof -
  have h1: "q_nextToken (example_query None (Some ''%%%'')) = Some ''%%%''"
    by (simp add: example_query_def)
  have h2: "''%%%'' \<noteq> []"
    by simp
  have h3: "decode_token example_list_env ''%%%'' = SyntaxError"
    by (simp add: example_list_env_def example_decode_def)
  have same: "(example_query None (Some ''%%%''))\<lparr>q_nextToken := None\<rparr> = example_query None None"
    by (simp add: example_query_def)
  have ok: "statusCode (fst (handler_list example_lib ''req-1'' example_list_env
                               (Some (example_query None None)))) = 200"
    by (simp add: example_decode_def example_query_def parseQueryParameters_def
      parse_nextToken_def parse_sortOrder_def parse_status_def parse_limit_def
      default_params_def list_request_def start_key_def handler_list_def
      example_list_env_def enrich_def Let_def)
  from unparsable_token_ignored [OF h1 h2 h3, of example_lib "''req-1''"] ok show ?thesis
    unfolding same by (simp add: prod_eq_iff)
qed


text \<open>
  Claim C7 asks that every token that does not decode to a resume position be logged and
  ignored, the listing restarting from the beginning without an error. The handler does
  so only when the decoding throws. The token \<^verbatim>\<open>Ingi\<close> decodes to the string "x", which is
  not a resume position: nothing is logged, the string is handed to the store as the
  start key, the store refuses it and the handler answers 500, where the same request
  without a token is answered with 200.
\<close>

theorem decoded_token_sent_to_store:
  "\<not> resume_position (JStr ''x'')
   \<and> example_decode ''Ingi'' = Json (JStr ''x'')
   \<and> list_request (fst (parseQueryParameters example_decode
                          (Some (example_query None (Some ''Ingi'')))))
     = ScanTable 10 (Some (JStr ''x''))
   \<and> list_request (fst (parseQueryParameters example_decode (Some (example_query None None))))
     = ScanTable 10 None
   \<and> snd (parseQueryParameters example_decode (Some (example_query None (Some ''Ingi'')))) = []
   \<and> statusCode (fst (handler_list example_lib ''req-1'' example_list_env
                        (Some (example_query None (Some ''Ingi''))))) = 500
   \<and> statusCode (fst (handler_list example_lib ''req-1'' example_list_env
                        (Some (example_query None None)))) = 200"
  by (simp add: example_decode_def example_query_def parseQueryParameters_def
      parse_nextToken_def parse_sortOrder_def parse_status_def parse_limit_def
      default_params_def list_request_def start_key_def handler_list_def
      example_list_env_def enrich_def Let_def)


section \<open>One order from intake to read\<close>

text \<open>
  The scenario of the specification, run through the three handlers: the order of Alice
  for one item at 10 is created with status PENDING and its event is queued; the
  processor confirms it and reports no failure; the read then shows CONFIRMED.
\<close>

lemma scenario_created:
  "handler_create example_lib example_env Map.empty [] (BodyText (Json example_good_body)) =
     (\<lparr>statusCode = 201,
       payload = JObj [(''success'', JBool True),
                       (''data'', JObj [(''id'', JStr example_uuid), (''status'', JStr ''PENDING''),
                                        (''createdAt'', JStr ''2025-01-01T00:00:00.000Z'')]),
                       (''message'', JStr ''Order created successfully'')]\<rparr>,
      example_orders,
      [example_event example_uuid [example_item]])"
  by (simp add: example_good_body_def handler_create_def validateOrderData_def
      customerName_bad_def item_errors_def sku_bad_def qty_bad_def price_bad_def js_trim_def
      is_ws_space example_env_def Let_def put_item_def new_order_def new_item_def
      order_event_def example_orders_def example_uuid_def example_event_def example_item_def)

lemma scenario_processed:
  "handler_processor example_lib ''2025-01-01T00:00:01.000Z'' (\<lambda>m. None) example_orders
     [\<lparr>messageId = ''m1'', body = Json (example_event example_uuid [example_item])\<rparr>] =
   ([], example_orders(example_uuid \<mapsto>
        [(''id'', JStr example_uuid), (''customerName'', JStr ''Alice''),
         (''items'', JArr [example_item]),
         (''status'', JStr ''CONFIRMED''),
         (''createdAt'', JStr ''2025-01-01T00:00:00.000Z''),
         (''updatedAt'', JStr ''2025-01-01T00:00:01.000Z''),
         (''processingNotes'', JStr ''Order processed successfully'')]))"
  by (simp add: handler_processor_def example_event_def example_item_def example_orders_def
      example_uuid_def example_item_decision update_item_def Let_def)


lemma scenario_read_back:
  "data_field
     (fst (handler_get example_lib ''req-2'' None
             (snd (handler_processor example_lib ''2025-01-01T00:00:01.000Z'' (\<lambda>m. None)
                     example_orders
                     [\<lparr>messageId = ''m1'',
                       body = Json (example_event example_uuid [example_item])\<rparr>]))
             (Some example_uuid))) ''status'' = Some (JStr ''CONFIRMED'')"
proof -
  let ?order = "[(''id'', JStr example_uuid), (''customerName'', JStr ''Alice''),
                 (''items'', JArr [example_item]),
                 (''status'', JStr ''CONFIRMED''),
                 (''createdAt'', JStr ''2025-01-01T00:00:00.000Z''),
                 (''updatedAt'', JStr ''2025-01-01T00:00:01.000Z''),
                 (''processingNotes'', JStr ''Order processed successfully'')]"
  have w: "whole_order [example_item]"
    by (simp add: whole_order_def whole_item_def line_size_def example_item_def)
  have items: "map_of ?order ''items'' = Some (JArr [example_item])"
    by simp
  have e: "enrich example_lib ?order =
           Inr (obj_set ''orderTotal'' (num_json (toFixed2 (Fin (spec_total [example_item]))))
                  (obj_set ''itemCount'' (JNum (of_nat (length [example_item]))) ?order))"
    using items reduce_total_whole [OF w] by (rule enrich_array)
  show ?thesis
    unfolding scenario_processed
    using example_uuid_valid isValidUUID_nonempty [OF example_uuid_valid]
    by (simp add: handler_get_def e data_field_def map_of_obj_set del: toFixed2.simps)
qed


end
